theory Spec2Isabelle
  imports Main "HOL-Library.Word"
begin

section \<open>The indexer of chromanode-master.js\<close>

subsection \<open>Values of the bitcore library\<close>

text \<open>
  A \<open>Buffer\<close> is a byte array. The digest that \<open>Hash.sha256ripemd160\<close> returns is kept
  as a free constructor over the buffer hashed: the development only ever asks which
  value a hash was taken of.
\<close>

datatype buffer = Buffer "8 word list" | Sha256ripemd160 buffer

record chunk =
  opcodenum :: nat
  buf :: "buffer option"

record script =
  chunks :: "chunk list"

datatype addrtype = PayToPublicKeyHash | PayToScriptHash

type_synonym network = string

text \<open>\<open>new Address(data, network, type)\<close>: the three values the object is built from.\<close>

datatype address = Address "buffer option" network addrtype

record txout =
  script :: script
  satoshis :: int

text \<open>A transaction: \<open>tx.id\<close>, \<open>tx.toString()\<close> and \<open>tx.outputs\<close>.\<close>

record tx =
  tx_id :: string
  tx_hex :: string
  outputs :: "txout list"

text \<open>A block: \<open>block.id\<close>, \<open>block.header.toString()\<close> and \<open>block.transactions\<close>.\<close>

record block =
  block_id :: string
  header :: string
  transactions :: "tx list"

text \<open>
  The script predicates of bitcore (\<open>script.isPublicKeyHashOut()\<close> and its siblings)
  are library code: they are a parameter of everything below. Of
  \<open>script.isMultisigOut()\<close> the parameter \<open>multisigTail\<close> is what the library asks of the
  chunks after the first: the key chunks, the chunk of the number of keys and
  \<open>OP_CHECKMULTISIG\<close>.
\<close>

record bitcore =
  isPublicKeyHashOut :: "script \<Rightarrow> bool"
  isScriptHashOut :: "script \<Rightarrow> bool"
  multisigTail :: "script \<Rightarrow> bool"
  isPublicKeyOut :: "script \<Rightarrow> bool"

text \<open>
  \<open>Opcode.isSmallIntOp\<close>: \<open>OP_0\<close> (0) and \<open>OP_1\<close> to \<open>OP_16\<close> (81 to 96).
\<close>

definition isSmallIntOp :: "nat \<Rightarrow> bool" where
  "isSmallIntOp k = (k = 0 \<or> 81 \<le> k \<and> k \<le> 96)"

text \<open>
  \<open>script.isMultisigOut()\<close>: the script has more than three chunks and its chunk 0, the
  chunk of the number of signatures required, is a small-integer opcode. The chunk of
  such an opcode carries no data in a script parsed from a block: its \<open>buf\<close> is
  \<open>undefined\<close>.
\<close>

definition isMultisigOut :: "bitcore \<Rightarrow> script \<Rightarrow> bool" where
  "isMultisigOut lib s =
     (3 < length (chunks s) \<and> isSmallIntOp (opcodenum (chunks s ! 0)) \<and>
      buf (chunks s ! 0) = None \<and> multisigTail lib s)"

subsection \<open>Exceptions and the queries sent to the client\<close>

text \<open>
  What a call to bitcoind can fail with: the node does not answer, or the bytes it
  answers with are not a block.
\<close>

datatype source_error = Unavailable | Malformed

text \<open>
  \<open>SyncComplete\<close> and \<open>ReorgFound\<close> are the two \<open>Error\<close> subclasses of the source;
  \<open>TypeError\<close> is what JavaScript throws on a property read of \<open>undefined\<close>;
  \<open>InvalidArgument\<close> is what bitcore throws when an argument fails its check;
  \<open>SourceError\<close> is a failed bitcoind call and \<open>StorageError\<close> a rejected query.
\<close>

datatype exn =
    SyncComplete | ReorgFound | TypeError | InvalidArgument
  | SourceError source_error | StorageError

text \<open>
  The query texts of the source, one constructor each:
  \<^item> \<open>DeleteBlocks\<close>: \<^verbatim>\<open>DELETE FROM blocks WHERE height >= $1\<close>
  \<^item> \<open>DeleteTransactions\<close>: \<^verbatim>\<open>DELETE FROM transactions WHERE height >= $1\<close>
  \<^item> \<open>DeleteHistory\<close>: \<^verbatim>\<open>DELETE FROM history WHERE height >= $1\<close>
  \<^item> \<open>TruncateMempool\<close>: \<^verbatim>\<open>TRUNCATE transactions_mempool, history_mempool\<close>
  \<^item> \<open>InsertBlocks\<close>: \<^verbatim>\<open>INSERT INTO blocks (height, blockid, header, txids) VALUES ($1, $2, $3, $4)\<close>
  \<^item> \<open>InsertTransactions\<close>: \<^verbatim>\<open>INSERT INTO transactions (txid, tx, height) VALUES ($1, $2, $3)\<close>
  \<^item> \<open>InsertHistoryHeight\<close>: \<^verbatim>\<open>INSERT INTO history (address, txid, index, value, height) VALUES ($1, $2, $3, $4, $5)\<close>
  \<^item> \<open>InsertTransactionsMempool\<close>: \<^verbatim>\<open>INSERT INTO transactions_mempool (txid, tx) VALUES ($1, $2)\<close>
  \<^item> \<open>InsertHistory\<close>: \<^verbatim>\<open>INSERT INTO history (address, txid, index, value) VALUES ($1, $2, $3, $4)\<close>
\<close>

datatype query =
    DeleteBlocks | DeleteTransactions | DeleteHistory | TruncateMempool
  | InsertBlocks | InsertTransactions | InsertHistoryHeight
  | InsertTransactionsMempool | InsertHistory

datatype table = Blocks | Transactions | TransactionsMempool | History | HistoryMempool

text \<open>The tables a query text names.\<close>

fun tables_of :: "query \<Rightarrow> table list" where
  "tables_of DeleteBlocks = [Blocks]"
| "tables_of DeleteTransactions = [Transactions]"
| "tables_of DeleteHistory = [History]"
| "tables_of TruncateMempool = [TransactionsMempool, HistoryMempool]"
| "tables_of InsertBlocks = [Blocks]"
| "tables_of InsertTransactions = [Transactions]"
| "tables_of InsertHistoryHeight = [History]"
| "tables_of InsertTransactionsMempool = [TransactionsMempool]"
| "tables_of InsertHistory = [History]"

text \<open>A query parameter: a string, a number, or \<open>address.toString()\<close>.\<close>

datatype sqlval = SqlText string | SqlNum int | SqlAddr address

type_synonym stmt = "query \<times> sqlval list"

text \<open>
  What a piece of code did with the client: the queries it issued, in order, and the
  exception it threw synchronously after them, if any.
\<close>

type_synonym issued = "stmt list \<times> exn option"

text \<open>
  A query issued by a function that returns a promise, with whether that promise waits
  for the promise of the query. The promise of the function is fulfilled when the
  queries it waits for are through, and rejected when one of them is rejected; a query
  it does not wait for is sent to the store all the same, and its rejection reaches
  no handler.
\<close>

type_synonym sent = "stmt \<times> bool"

definition awaited :: "stmt list \<Rightarrow> sent list" where
  "awaited sts = map (\<lambda>st. (st, True)) sts"

definition detached :: "stmt list \<Rightarrow> sent list" where
  "detached sts = map (\<lambda>st. (st, False)) sts"

text \<open>
  What a function that returns a promise did: the queries it issued, in order, each
  with whether its promise waits for it, and the exception it threw synchronously
  after them, if any (then there is no promise).
\<close>

type_synonym step = "sent list \<times> exn option"

subsection \<open>storeTransactions\<close>

record queries =
  storeTx :: query
  storeOut :: query

definition queries_blockchain :: queries where
  "queries_blockchain = \<lparr>storeTx = InsertTransactions, storeOut = InsertHistoryHeight\<rparr>"

definition queries_mempool :: queries where
  "queries_mempool = \<lparr>storeTx = InsertTransactionsMempool, storeOut = InsertHistory\<rparr>"

text \<open>The two-character prefix \<^verbatim>\<open>\x\<close> of a bytea literal.\<close>

definition bytea :: "string \<Rightarrow> string" where
  "bytea s = CHR 0x5C # CHR ''x'' # s"

text \<open>\<open>xs.slice(start, stop)\<close> of JavaScript: negative positions count from the end.\<close>

definition js_slice :: "'a list \<Rightarrow> int \<Rightarrow> int \<Rightarrow> 'a list" where
  "js_slice xs start stop =
     (let n = int (length xs);
          k = (if start < 0 then max (n + start) 0 else min start n);
          e = (if stop < 0 then max (n + stop) 0 else min stop n)
      in take (nat (e - k)) (drop (nat k) xs))"

text \<open>\<open>script.chunks[i].buf\<close>: a \<open>TypeError\<close> when \<open>chunks[i]\<close> is \<open>undefined\<close>.\<close>

definition chunk_buf :: "script \<Rightarrow> nat \<Rightarrow> exn + buffer option" where
  "chunk_buf s i = (if i < length (chunks s) then Inr (buf (chunks s ! i)) else Inl TypeError)"

fun mapE :: "('a \<Rightarrow> exn + 'b) \<Rightarrow> 'a list \<Rightarrow> exn + 'b list" where
  "mapE f [] = Inr []"
| "mapE f (x # xs) =
     (case f x of
        Inl e \<Rightarrow> Inl e
      | Inr y \<Rightarrow> (case mapE f xs of Inl e \<Rightarrow> Inl e | Inr ys \<Rightarrow> Inr (y # ys)))"

text \<open>
  \<open>Hash.sha256ripemd160(buf)\<close> of bitcore checks that its argument is a buffer before
  it hashes, and throws when it is not: \<open>undefined\<close> has no hash.
\<close>

definition sha256ripemd160 :: "buffer option \<Rightarrow> exn + buffer" where
  "sha256ripemd160 b = (case b of None \<Rightarrow> Inl InvalidArgument | Some x \<Rightarrow> Inr (Sha256ripemd160 x))"

text \<open>
  The callback of \<open>script.chunks.slice(1, -2).map\<close> in the multisig branch: its
  argument \<open>pubKey\<close> is not read, the hash is taken of the buffer of chunk 0.
\<close>

definition multisigAddress :: "network \<Rightarrow> script \<Rightarrow> chunk \<Rightarrow> exn + address" where
  "multisigAddress net s pubKey =
     (case chunk_buf s 0 of
        Inl e \<Rightarrow> Inl e
      | Inr b \<Rightarrow>
          (case sha256ripemd160 b of
             Inl e \<Rightarrow> Inl e
           | Inr hash \<Rightarrow> Inr (Address (Some hash) net PayToPublicKeyHash)))"

text \<open>
  The classification at the head of the callback of \<open>saveOutputs\<close>: the addresses of
  one output script. \<open>None\<close> is the bare \<open>return\<close> of the last branch.
\<close>

definition outputAddresses :: "bitcore \<Rightarrow> network \<Rightarrow> script \<Rightarrow> exn + address list option" where
  "outputAddresses lib net s =
     (if isPublicKeyHashOut lib s then
        (case chunk_buf s 2 of
           Inl e \<Rightarrow> Inl e
         | Inr b \<Rightarrow> Inr (Some [Address b net PayToPublicKeyHash]))
      else if isScriptHashOut lib s then
        (case chunk_buf s 1 of
           Inl e \<Rightarrow> Inl e
         | Inr b \<Rightarrow> Inr (Some [Address b net PayToScriptHash]))
      else if isMultisigOut lib s then
        (case mapE (multisigAddress net s) (js_slice (chunks s) 1 (- 2)) of
           Inl e \<Rightarrow> Inl e
         | Inr as \<Rightarrow> Inr (Some as))
      else if isPublicKeyOut lib s then
        (case chunk_buf s 0 of
           Inl e \<Rightarrow> Inl e
         | Inr b \<Rightarrow>
             (case sha256ripemd160 b of
                Inl e \<Rightarrow> Inl e
              | Inr hash \<Rightarrow> Inr (Some [Address (Some hash) net PayToPublicKeyHash])))
      else Inr None)"

text \<open>
  \<open>addresses.map(...)\<close> at the end of the callback: \<open>params\<close> is assigned anew in every
  iteration, so each address is put in front of the parameters of the one before.
\<close>

fun storeOutQueries :: "query \<Rightarrow> sqlval list \<Rightarrow> address list \<Rightarrow> stmt list" where
  "storeOutQueries q params [] = []"
| "storeOutQueries q params (a # as) =
     (q, SqlAddr a # params) # storeOutQueries q (SqlAddr a # params) as"

definition saveOutput ::
  "bitcore \<Rightarrow> network \<Rightarrow> queries \<Rightarrow> int option \<Rightarrow> string \<Rightarrow> nat \<Rightarrow> txout \<Rightarrow> exn + stmt list" where
  "saveOutput lib net qs height txid index out =
     (case outputAddresses lib net (script out) of
        Inl e \<Rightarrow> Inl e
      | Inr None \<Rightarrow> Inr []
      | Inr (Some addresses) \<Rightarrow>
          Inr (storeOutQueries (storeOut qs)
                 ([SqlText txid, SqlNum (int index), SqlNum (satoshis out)] @
                  (case height of None \<Rightarrow> [] | Some h \<Rightarrow> [SqlNum h]))
                 addresses))"

text \<open>\<open>tx.outputs.map(function (output, index) ...)\<close>, from position \<open>index\<close> on.\<close>

fun saveOutputsFrom ::
  "bitcore \<Rightarrow> network \<Rightarrow> queries \<Rightarrow> int option \<Rightarrow> string \<Rightarrow> nat \<Rightarrow> txout list \<Rightarrow> issued" where
  "saveOutputsFrom lib net qs height txid index [] = ([], None)"
| "saveOutputsFrom lib net qs height txid index (out # outs) =
     (case saveOutput lib net qs height txid index out of
        Inl e \<Rightarrow> ([], Some e)
      | Inr sts \<Rightarrow>
          (case saveOutputsFrom lib net qs height txid (Suc index) outs of
             (sts', r) \<Rightarrow> (sts @ sts', r)))"

definition saveOutputs :: "bitcore \<Rightarrow> network \<Rightarrow> queries \<Rightarrow> int option \<Rightarrow> tx \<Rightarrow> issued" where
  "saveOutputs lib net qs height t = saveOutputsFrom lib net qs height (tx_id t) 0 (outputs t)"

definition saveTx :: "queries \<Rightarrow> int option \<Rightarrow> tx \<Rightarrow> stmt" where
  "saveTx qs height t =
     (storeTx qs,
      [SqlText (bytea (tx_id t)), SqlText (bytea (tx_hex t))] @
      (case height of None \<Rightarrow> [] | Some h \<Rightarrow> [SqlNum h]))"

text \<open>
  \<open>transactions.map(function (tx) { return [saveTx(tx), saveInputs(tx), saveOutputs(tx)] })\<close>;
  \<open>saveInputs\<close> issues nothing.
\<close>

fun storeTransactionsWith :: "bitcore \<Rightarrow> network \<Rightarrow> queries \<Rightarrow> int option \<Rightarrow> tx list \<Rightarrow> issued" where
  "storeTransactionsWith lib net qs height [] = ([], None)"
| "storeTransactionsWith lib net qs height (t # ts) =
     (case saveOutputs lib net qs height t of
        (sts, Some e) \<Rightarrow> (saveTx qs height t # sts, Some e)
      | (sts, None) \<Rightarrow>
          (case storeTransactionsWith lib net qs height ts of
             (sts', r) \<Rightarrow> (saveTx qs height t # sts @ sts', r)))"

text \<open>
  \<open>height\<close> is \<open>undefined\<close> (\<open>None\<close>) for transactions of the mempool. The result is
  the queries issued, and the exception thrown while issuing them, if any.
\<close>

definition storeTransactions :: "bitcore \<Rightarrow> network \<Rightarrow> tx list \<Rightarrow> int option \<Rightarrow> issued" where
  "storeTransactions lib net txs height =
     (let isMempool = (height = None);
          qs = (if isMempool then queries_mempool else queries_blockchain)
      in storeTransactionsWith lib net qs height txs)"

text \<open>
  The promise that \<open>storeTransactions\<close> returns is \<open>Promise.all\<close> of the array of the
  triples \<open>[saveTx(tx), saveInputs(tx), saveOutputs(tx)]\<close> flattened by one level, which
  is as deep as \<open>_.flatten\<close> goes. \<open>saveTx(tx)\<close> is the promise of its query. \<open>saveOutputs(tx)\<close>
  is an array, per output, of the array of the promises of its queries (or \<open>undefined\<close>);
  it is still an array after the flattening, and an array is a plain value to
  \<open>Promise.all\<close>. So the promise waits for the queries of \<open>saveTx\<close> and for none of
  \<open>saveOutputs\<close>: the same queries as above, each with whether the promise waits for it.
\<close>

fun storeTransactionsSentWith ::
  "bitcore \<Rightarrow> network \<Rightarrow> queries \<Rightarrow> int option \<Rightarrow> tx list \<Rightarrow> step" where
  "storeTransactionsSentWith lib net qs height [] = ([], None)"
| "storeTransactionsSentWith lib net qs height (t # ts) =
     (case saveOutputs lib net qs height t of
        (sts, Some e) \<Rightarrow> (awaited [saveTx qs height t] @ detached sts, Some e)
      | (sts, None) \<Rightarrow>
          (case storeTransactionsSentWith lib net qs height ts of
             (sent, r) \<Rightarrow> (awaited [saveTx qs height t] @ detached sts @ sent, r)))"

definition storeTransactionsSent :: "bitcore \<Rightarrow> network \<Rightarrow> tx list \<Rightarrow> int option \<Rightarrow> step" where
  "storeTransactionsSent lib net txs height =
     (let isMempool = (height = None);
          qs = (if isMempool then queries_mempool else queries_blockchain)
      in storeTransactionsSentWith lib net qs height txs)"

subsection \<open>The storage\<close>

text \<open>
  Modelled from the spec: the five tables of the schema (\<open>lib/storage\<close>, which creates
  them, is not among the sources). A table is the list of its rows, oldest first; a
  nullable \<open>height\<close> column is an \<open>int option\<close>.
\<close>

type_synonym block_row = "int \<times> string \<times> string \<times> string"
type_synonym tx_row = "string \<times> string \<times> int option"
type_synonym mempool_tx_row = "string \<times> string"
type_synonym history_row = "address \<times> string \<times> int \<times> int \<times> int option"
type_synonym mempool_history_row = "address \<times> string \<times> int \<times> int"

record db =
  t_blocks :: "block_row list"
  t_transactions :: "tx_row list"
  t_transactions_mempool :: "mempool_tx_row list"
  t_history :: "history_row list"
  t_history_mempool :: "mempool_history_row list"

definition block_row_height :: "block_row \<Rightarrow> int" where
  "block_row_height r = fst r"

definition tx_row_height :: "tx_row \<Rightarrow> int option" where
  "tx_row_height r = snd (snd r)"

definition history_row_height :: "history_row \<Rightarrow> int option" where
  "history_row_height r = snd (snd (snd (snd r)))"

text \<open>\<^verbatim>\<open>WHERE height >= $1\<close> on a nullable column: a row without height does not match.\<close>

definition height_ge :: "int option \<Rightarrow> int \<Rightarrow> bool" where
  "height_ge ht h = (case ht of None \<Rightarrow> False | Some x \<Rightarrow> h \<le> x)"

text \<open>
  Modelled from the spec: the parameters a query text takes, by its placeholders and the
  types of the columns of the schema.
\<close>

fun height_param :: "sqlval list \<Rightarrow> int option" where
  "height_param [SqlNum h] = Some h"
| "height_param ps = None"

fun block_params :: "sqlval list \<Rightarrow> block_row option" where
  "block_params [SqlNum h, SqlText i, SqlText hdr, SqlText ts] = Some (h, i, hdr, ts)"
| "block_params ps = None"

fun tx_params :: "sqlval list \<Rightarrow> tx_row option" where
  "tx_params [SqlText i, SqlText raw, SqlNum h] = Some (i, raw, Some h)"
| "tx_params ps = None"

fun mempool_tx_params :: "sqlval list \<Rightarrow> mempool_tx_row option" where
  "mempool_tx_params [SqlText i, SqlText raw] = Some (i, raw)"
| "mempool_tx_params ps = None"

fun history_height_params :: "sqlval list \<Rightarrow> history_row option" where
  "history_height_params [SqlAddr a, SqlText i, SqlNum n, SqlNum v, SqlNum h] = Some (a, i, n, v, Some h)"
| "history_height_params ps = None"

fun history_params :: "sqlval list \<Rightarrow> history_row option" where
  "history_params [SqlAddr a, SqlText i, SqlNum n, SqlNum v] = Some (a, i, n, v, None)"
| "history_params ps = None"

text \<open>
  Modelled from the spec: what the store does with one query. The parameters must be
  as many as the placeholders of the text and of the columns' types, and \<open>height\<close> is
  the primary key of \<open>blocks\<close>; anything else is rejected.
\<close>

fun exec :: "query \<Rightarrow> sqlval list \<Rightarrow> db \<Rightarrow> exn + db" where
  "exec DeleteBlocks ps d =
     (case height_param ps of
        None \<Rightarrow> Inl StorageError
      | Some h \<Rightarrow> Inr (d\<lparr>t_blocks := filter (\<lambda>r. \<not> h \<le> block_row_height r) (t_blocks d)\<rparr>))"
| "exec DeleteTransactions ps d =
     (case height_param ps of
        None \<Rightarrow> Inl StorageError
      | Some h \<Rightarrow>
          Inr (d\<lparr>t_transactions := filter (\<lambda>r. \<not> height_ge (tx_row_height r) h) (t_transactions d)\<rparr>))"
| "exec DeleteHistory ps d =
     (case height_param ps of
        None \<Rightarrow> Inl StorageError
      | Some h \<Rightarrow>
          Inr (d\<lparr>t_history := filter (\<lambda>r. \<not> height_ge (history_row_height r) h) (t_history d)\<rparr>))"
| "exec TruncateMempool ps d =
     (if ps = [] then Inr (d\<lparr>t_transactions_mempool := [], t_history_mempool := []\<rparr>)
      else Inl StorageError)"
| "exec InsertBlocks ps d =
     (case block_params ps of
        None \<Rightarrow> Inl StorageError
      | Some r \<Rightarrow>
          if block_row_height r \<in> set (map block_row_height (t_blocks d)) then Inl StorageError
          else Inr (d\<lparr>t_blocks := t_blocks d @ [r]\<rparr>))"
| "exec InsertTransactions ps d =
     (case tx_params ps of
        None \<Rightarrow> Inl StorageError
      | Some r \<Rightarrow> Inr (d\<lparr>t_transactions := t_transactions d @ [r]\<rparr>))"
| "exec InsertHistoryHeight ps d =
     (case history_height_params ps of
        None \<Rightarrow> Inl StorageError
      | Some r \<Rightarrow> Inr (d\<lparr>t_history := t_history d @ [r]\<rparr>))"
| "exec InsertTransactionsMempool ps d =
     (case mempool_tx_params ps of
        None \<Rightarrow> Inl StorageError
      | Some r \<Rightarrow> Inr (d\<lparr>t_transactions_mempool := t_transactions_mempool d @ [r]\<rparr>))"
| "exec InsertHistory ps d =
     (case history_params ps of
        None \<Rightarrow> Inl StorageError
      | Some r \<Rightarrow> Inr (d\<lparr>t_history := t_history d @ [r]\<rparr>))"

text \<open>
  Modelled from the spec: queries in their order, all of them accepted: the store
  after the last, or the error of the first one rejected.
\<close>

fun run_stmts :: "stmt list \<Rightarrow> db \<Rightarrow> exn + db" where
  "run_stmts [] d = Inr d"
| "run_stmts ((q, ps) # sts) d =
     (case exec q ps d of Inl e \<Rightarrow> Inl e | Inr d' \<Rightarrow> run_stmts sts d')"

text \<open>
  Modelled from the spec: a storage transaction under way. It is \<open>Active\<close> with the
  store as its queries have made it so far, or \<open>Aborted\<close> once a query of it was
  rejected: from then on the store rejects every query of the transaction, and the
  transaction commits nothing (it never commits a partial result).
\<close>

datatype tx_state = Active db | Aborted

definition exec_in :: "stmt \<Rightarrow> tx_state \<Rightarrow> exn + db" where
  "exec_in st s = (case s of Aborted \<Rightarrow> Inl StorageError | Active d \<Rightarrow> exec (fst st) (snd st) d)"

text \<open>
  The queries of one step of a callback, in the order of issue, which is the order in
  which the client sends them. The result is the error that rejects the promise of the
  step, which is the error of the first rejected query among those the promise waits
  for (\<open>None\<close>: the promise is fulfilled), and the transaction after the queries. A
  rejected query that the promise does not wait for aborts the transaction and leaves
  the promise as it is.
\<close>

fun run_sent :: "sent list \<Rightarrow> tx_state \<Rightarrow> exn option \<times> tx_state" where
  "run_sent [] s = (None, s)"
| "run_sent ((st, waits) # rest) s =
     (case exec_in st s of
        Inl e \<Rightarrow> if waits then (Some e, Aborted) else run_sent rest Aborted
      | Inr d' \<Rightarrow> run_sent rest (Active d'))"

text \<open>
  A callback given to \<open>executeTransaction\<close>, by the steps of its promise chain in their
  order: each step issues queries and may throw while it does, and the next step
  starts when the promise of the one before is fulfilled.
\<close>

type_synonym work = "step list"

text \<open>The queries of a callback, in the order of issue when no step fails.\<close>

definition queries_of :: "work \<Rightarrow> stmt list" where
  "queries_of steps = concat (map (\<lambda>step. map fst (fst step)) steps)"

fun run_work :: "work \<Rightarrow> tx_state \<Rightarrow> exn + tx_state" where
  "run_work [] s = Inr s"
| "run_work ((sent, Some e) # steps) s = Inl e"
| "run_work ((sent, None) # steps) s =
     (case run_sent sent s of
        (Some e, s') \<Rightarrow> Inl e
      | (None, s') \<Rightarrow> run_work steps s')"

text \<open>
  Modelled from the spec: \<open>storage.executeTransaction(work)\<close>, which is not among the
  sources: commit on normal completion of the callback, rollback on any error of it,
  be it an exception or the rejection of a query that its promise waits for. The
  commit of a transaction that a rejected query has aborted commits nothing, and is
  no error to the caller.
\<close>

definition executeTransaction :: "work \<Rightarrow> db \<Rightarrow> (exn + unit) \<times> db" where
  "executeTransaction steps d =
     (case run_work steps (Active d) of
        Inl e \<Rightarrow> (Inl e, d)
      | Inr (Active d') \<Rightarrow> (Inr (), d')
      | Inr Aborted \<Rightarrow> (Inr (), d))"

record tip =
  height :: int
  blockid :: string

text \<open>Modelled from the spec: the row of the greatest height in \<open>blocks\<close>.\<close>

fun best_row :: "block_row list \<Rightarrow> block_row option" where
  "best_row [] = None"
| "best_row (r # rs) =
     (case best_row rs of
        None \<Rightarrow> Some r
      | Some b \<Rightarrow> if block_row_height r \<le> block_row_height b then Some b else Some r)"

text \<open>
  Modelled from the spec: \<open>storage.getBestBlock()\<close>, which is not among the sources: the
  highest committed tip, or a genesis value when \<open>blocks\<close> is empty. The block id comes
  back without the bytea prefix it was stored with.
\<close>

definition getBestBlock :: "tip \<Rightarrow> db \<Rightarrow> tip" where
  "getBestBlock genesis d =
     (case best_row (t_blocks d) of
        None \<Rightarrow> genesis
      | Some (h, i, hdr, ts) \<Rightarrow> \<lparr>height = h, blockid = drop 2 i\<rparr>)"

subsection \<open>The indexer and its surroundings\<close>

text \<open>The two fields of the \<open>Indexer\<close> object that the loops read and write.\<close>

record indexer =
  bestBlock :: tip
  bitcoindBestBlock :: tip

text \<open>
  What the process is given: the library, the configuration, and bitcoind. The chain
  of bitcoind changes with time, so its answers depend on a clock that counts the
  calls made so far; \<open>now\<close> is \<open>Date.now()\<close> at a clock value.
\<close>

record env =
  lib :: bitcore
  net :: network
  genesis :: tip
  loopInterval :: int
  getBitcoindBestBlock :: "nat \<Rightarrow> source_error + tip"
  getBlock :: "nat \<Rightarrow> int \<Rightarrow> source_error + block"
  now :: "nat \<Rightarrow> int"

record world =
  self :: indexer
  store :: db
  clock :: nat

text \<open>
  What a cycle does outside the process: a query of the remote tip, a fetch of the
  block at a height, and a storage transaction (a rollback to a height or an import at
  a height) with the queries of its callback and the error that
  \<open>executeTransaction\<close> ended with (\<open>None\<close>: it ended without one).
\<close>

datatype event =
    TipQuery
  | BlockFetch int
  | Rollback int "stmt list" "exn option"
  | Import int "stmt list" "exn option"

datatype client = Client

subsection \<open>catchUp\<close>

text \<open>
  \<open>tryTruncateMempool(client)\<close>, with the flag \<open>mempoolTruncated\<close> of the enclosing
  \<open>catchUp\<close> call passed in and out. Without a client (\<open>None\<close>: the argument is
  \<open>undefined\<close>) the call \<open>client.queryAsync\<close> is a \<open>TypeError\<close>, after the flag is set.
\<close>

definition tryTruncateMempool :: "client option \<Rightarrow> bool \<Rightarrow> issued \<times> bool" where
  "tryTruncateMempool client mempoolTruncated =
     (if mempoolTruncated then (([], None), mempoolTruncated)
      else (case client of
              None \<Rightarrow> (([], Some TypeError), True)
            | Some c \<Rightarrow> (([(TruncateMempool, [])], None), True)))"

text \<open>
  The callback given to \<open>executeTransaction\<close> in the reorg branch, one step: the array
  given to \<open>Promise.all\<close> holds three deletes, then \<open>tryTruncateMempool()\<close>, called with
  no argument.
\<close>

definition reorgWork :: "int \<Rightarrow> bool \<Rightarrow> work \<times> bool" where
  "reorgWork h mempoolTruncated =
     (case tryTruncateMempool None mempoolTruncated of
        ((sts, r), flag) \<Rightarrow>
          ([(awaited ([(DeleteBlocks, [SqlNum h]), (DeleteTransactions, [SqlNum h]),
                       (DeleteHistory, [SqlNum h])] @ sts), r)], flag))"

text \<open>The parameters of the insert of the row of a block.\<close>

definition blockValues :: "int \<Rightarrow> block \<Rightarrow> sqlval list" where
  "blockValues h b =
     [SqlNum h, SqlText (bytea (block_id b)), SqlText (bytea (header b)),
      SqlText (bytea (concat (map tx_id (transactions b))))]"

text \<open>
  The callback given to \<open>executeTransaction\<close> for a block, three steps chained by
  \<open>then\<close>: \<open>tryTruncateMempool(client)\<close>, the row of the block, \<open>storeTransactions\<close>.
  The first two return the promise of their query.
\<close>

definition importWork :: "bitcore \<Rightarrow> network \<Rightarrow> int \<Rightarrow> block \<Rightarrow> bool \<Rightarrow> work \<times> bool" where
  "importWork L n h b mempoolTruncated =
     (case tryTruncateMempool (Some Client) mempoolTruncated of
        ((sts, r), flag) \<Rightarrow>
          ([(awaited sts, r), (awaited [(InsertBlocks, blockValues h b)], None),
            storeTransactionsSent L n (transactions b) (Some h)], flag))"

text \<open>The first step of \<open>once\<close>: check the sync status, refresh the remote tip.\<close>

definition checkSync :: "env \<Rightarrow> world \<Rightarrow> (exn + unit) \<times> world \<times> event list" where
  "checkSync E w =
     (if height (bestBlock (self w)) + 100 < height (bitcoindBestBlock (self w))
      then (Inr (), w, [])
      else
        (case getBitcoindBestBlock E (clock w) of
           Inl e \<Rightarrow> (Inl (SourceError e), w\<lparr>clock := Suc (clock w)\<rparr>, [TipQuery])
         | Inr bBestBlock \<Rightarrow>
             (if blockid (bestBlock (self w)) = blockid bBestBlock then Inl SyncComplete
              else Inr (),
              w\<lparr>self := (self w)\<lparr>bitcoindBestBlock := bBestBlock\<rparr>, clock := Suc (clock w)\<rparr>,
              [TipQuery])))"

text \<open>
  The reorg branch of the second step: the transaction of the rollback to the height
  of the remote tip, then the reload of the local tip. It always ends in a throw, of
  \<open>ReorgFound\<close> when the transaction committed.
\<close>

definition rollbackTo :: "env \<Rightarrow> world \<Rightarrow> bool \<Rightarrow> exn \<times> world \<times> bool \<times> event list" where
  "rollbackTo E w mempoolTruncated =
     (let h = height (bitcoindBestBlock (self w)) in
      case reorgWork h mempoolTruncated of
        (work, flag) \<Rightarrow>
          (case executeTransaction work (store w) of
             (Inl e, d) \<Rightarrow> (e, w\<lparr>store := d\<rparr>, flag, [Rollback h (queries_of work) (Some e)])
           | (Inr u, d) \<Rightarrow>
               (ReorgFound,
                w\<lparr>self := (self w)\<lparr>bestBlock := getBestBlock (genesis E) d\<rparr>, store := d\<rparr>,
                flag, [Rollback h (queries_of work) None])))"

text \<open>The second step: the reorg check, else the block after the local tip.\<close>

definition reorgOrFetch ::
  "env \<Rightarrow> world \<Rightarrow> bool \<Rightarrow> (exn + block) \<times> world \<times> bool \<times> event list" where
  "reorgOrFetch E w mempoolTruncated =
     (if height (bitcoindBestBlock (self w)) \<le> height (bestBlock (self w)) then
        (case rollbackTo E w mempoolTruncated of
           (e, w', flag, evs) \<Rightarrow> (Inl e, w', flag, evs))
      else
        (let h = height (bestBlock (self w)) + 1 in
         case getBlock E (clock w) h of
           Inl e \<Rightarrow>
             (Inl (SourceError e), w\<lparr>clock := Suc (clock w)\<rparr>, mempoolTruncated, [BlockFetch h])
         | Inr b \<Rightarrow> (Inr b, w\<lparr>clock := Suc (clock w)\<rparr>, mempoolTruncated, [BlockFetch h])))"

text \<open>The third step: the transaction of the fetched block, then the new local tip.\<close>

definition importBlock ::
  "env \<Rightarrow> world \<Rightarrow> bool \<Rightarrow> block \<Rightarrow> (exn + unit) \<times> world \<times> bool \<times> event list" where
  "importBlock E w mempoolTruncated b =
     (let h = height (bestBlock (self w)) + 1 in
      case importWork (lib E) (net E) h b mempoolTruncated of
        (work, flag) \<Rightarrow>
          (case executeTransaction work (store w) of
             (Inl e, d) \<Rightarrow> (Inl e, w\<lparr>store := d\<rparr>, flag, [Import h (queries_of work) (Some e)])
           | (Inr u, d) \<Rightarrow>
               (Inr (),
                w\<lparr>self := (self w)\<lparr>bestBlock := \<lparr>height = h, blockid = block_id b\<rparr>\<rparr>, store := d\<rparr>,
                flag, [Import h (queries_of work) None])))"

text \<open>
  How a cycle ends: \<open>Again\<close> is \<open>timers.setImmediate(once)\<close>, \<open>Resolved\<close> is
  \<open>deferred.resolve()\<close>, \<open>Rejected err\<close> is \<open>deferred.reject(err)\<close>.
\<close>

datatype outcome = Again | Resolved | Rejected exn

text \<open>The four handlers at the end of the chain of \<open>once\<close>, in their order.\<close>

fun settle :: "exn + unit \<Rightarrow> outcome" where
  "settle (Inr u) = Again"
| "settle (Inl ReorgFound) = Again"
| "settle (Inl SyncComplete) = Resolved"
| "settle (Inl e) = Rejected e"

definition once :: "env \<Rightarrow> world \<Rightarrow> bool \<Rightarrow> outcome \<times> world \<times> bool \<times> event list" where
  "once E w mempoolTruncated =
     (case checkSync E w of
        (Inl e, w1, evs1) \<Rightarrow> (settle (Inl e), w1, mempoolTruncated, evs1)
      | (Inr u, w1, evs1) \<Rightarrow>
          (case reorgOrFetch E w1 mempoolTruncated of
             (Inl e, w2, flag2, evs2) \<Rightarrow> (settle (Inl e), w2, flag2, evs1 @ evs2)
           | (Inr b, w2, flag2, evs2) \<Rightarrow>
               (case importBlock E w2 flag2 b of
                  (r, w3, flag3, evs3) \<Rightarrow> (settle r, w3, flag3, evs1 @ evs2 @ evs3))))"

text \<open>
  The cycles of one \<open>catchUp\<close> call, at most \<open>n\<close> of them. The result is how the
  returned promise settles: \<open>Some (Inr ())\<close> resolved, \<open>Some (Inl err)\<close> rejected, \<open>None\<close>
  not settled within \<open>n\<close> cycles.
\<close>

fun catchUpFrom ::
  "nat \<Rightarrow> env \<Rightarrow> world \<Rightarrow> bool \<Rightarrow> (exn + unit) option \<times> world \<times> event list" where
  "catchUpFrom 0 E w mempoolTruncated = (None, w, [])"
| "catchUpFrom (Suc n) E w mempoolTruncated =
     (case once E w mempoolTruncated of
        (Again, w', flag, evs) \<Rightarrow>
          (case catchUpFrom n E w' flag of (r, w'', evs') \<Rightarrow> (r, w'', evs @ evs'))
      | (Resolved, w', flag, evs) \<Rightarrow> (Some (Inr ()), w', evs)
      | (Rejected err, w', flag, evs) \<Rightarrow> (Some (Inl err), w', evs))"

text \<open>\<open>catchUp\<close> starts with \<open>mempoolTruncated = false\<close>.\<close>

definition catchUp :: "nat \<Rightarrow> env \<Rightarrow> world \<Rightarrow> (exn + unit) option \<times> world \<times> event list" where
  "catchUp n E w = catchUpFrom n E w False"

subsection \<open>mainLoop\<close>

text \<open>
  One run of \<open>once\<close> of \<open>mainLoop\<close>, up to the settling of its promise (\<open>n\<close> bounds the
  cycles of the \<open>catchUp\<close> call in it). \<open>updateMempool\<close> resolves at once.
\<close>

definition mainLoopOnce ::
  "nat \<Rightarrow> env \<Rightarrow> world \<Rightarrow> (exn + unit) option \<times> world \<times> event list" where
  "mainLoopOnce n E w =
     (case getBitcoindBestBlock E (clock w) of
        Inl e \<Rightarrow> (Some (Inl (SourceError e)), w\<lparr>clock := Suc (clock w)\<rparr>, [TipQuery])
      | Inr bBestBlock \<Rightarrow>
          (let w1 = w\<lparr>self := (self w)\<lparr>bitcoindBestBlock := bBestBlock\<rparr>, clock := Suc (clock w)\<rparr>
           in if blockid (bestBlock (self w1)) \<noteq> blockid (bitcoindBestBlock (self w1))
              then (case catchUp n E w1 of (r, w2, evs) \<Rightarrow> (r, w2, TipQuery # evs))
              else (Some (Inr ()), w1, [TipQuery])))"

text \<open>
  A tick of the main loop as seen from outside: how its promise settled, what it did,
  and the delay given to \<open>setTimeout(once, ...)\<close> by the \<open>finally\<close> handler.
\<close>

record tick =
  settled :: "exn + unit"
  events :: "event list"
  delay :: int

text \<open>
  The first \<open>k\<close> ticks of \<open>mainLoop\<close>. The \<open>finally\<close> handler runs when the promise of
  the tick settles, fulfilled or rejected, and arms the timer of the next tick; a tick
  whose promise does not settle has no successor.
\<close>

fun mainLoop :: "nat \<Rightarrow> nat \<Rightarrow> env \<Rightarrow> world \<Rightarrow> tick list" where
  "mainLoop 0 n E w = []"
| "mainLoop (Suc k) n E w =
     (case mainLoopOnce n E w of
        (None, w', evs) \<Rightarrow> []
      | (Some r, w', evs) \<Rightarrow>
          (let et = now E (clock w') - now E (clock w)
           in \<lparr>settled = r, events = evs, delay = max 0 (loopInterval E - et)\<rparr>
              # mainLoop k n E w'))"

subsection \<open>Notions the properties are stated with\<close>

text \<open>The queries issued in the storage transaction of an event.\<close>

fun stmts_of :: "event \<Rightarrow> stmt list" where
  "stmts_of TipQuery = []"
| "stmts_of (BlockFetch h) = []"
| "stmts_of (Rollback h sts r) = sts"
| "stmts_of (Import h sts r) = sts"

fun is_transaction :: "event \<Rightarrow> bool" where
  "is_transaction TipQuery = False"
| "is_transaction (BlockFetch h) = False"
| "is_transaction (Rollback h sts r) = True"
| "is_transaction (Import h sts r) = True"

text \<open>How many \<^verbatim>\<open>TRUNCATE\<close> queries a sequence of events issued.\<close>

definition truncations :: "event list \<Rightarrow> nat" where
  "truncations evs = length (filter (\<lambda>st. fst st = TruncateMempool) (concat (map stmts_of evs)))"

text \<open>
  The store without the rows of height \<open>h\<close> and above in \<open>blocks\<close>, \<open>transactions\<close> and
  \<open>history\<close>: the rows below \<open>h\<close>, and those without height, stay as they are.
\<close>

definition below_height :: "int \<Rightarrow> db \<Rightarrow> db" where
  "below_height h d =
     d\<lparr>t_blocks := filter (\<lambda>r. block_row_height r < h) (t_blocks d),
       t_transactions :=
         filter (\<lambda>r. case tx_row_height r of None \<Rightarrow> True | Some x \<Rightarrow> x < h)
           (t_transactions d),
       t_history :=
         filter (\<lambda>r. case history_row_height r of None \<Rightarrow> True | Some x \<Rightarrow> x < h)
           (t_history d)\<rparr>"

text \<open>
  The rows the spec expects of the import of block \<open>b\<close> at height \<open>h\<close>: the row of the
  block, a row per transaction, and a row per address of every output, with the index
  and the value of the output and the height of the transaction (none in the mempool).
\<close>

definition expected_block_row :: "int \<Rightarrow> block \<Rightarrow> block_row" where
  "expected_block_row h b =
     (h, bytea (block_id b), bytea (header b), bytea (concat (map tx_id (transactions b))))"

definition expected_tx_row :: "int \<Rightarrow> tx \<Rightarrow> tx_row" where
  "expected_tx_row h t = (bytea (tx_id t), bytea (tx_hex t), Some h)"

fun expected_ownership_from ::
  "bitcore \<Rightarrow> network \<Rightarrow> int option \<Rightarrow> string \<Rightarrow> nat \<Rightarrow> txout list \<Rightarrow> history_row list" where
  "expected_ownership_from L n ht txid i [] = []"
| "expected_ownership_from L n ht txid i (out # outs) =
     (case outputAddresses L n (script out) of
        Inr (Some addresses) \<Rightarrow> map (\<lambda>a. (a, txid, int i, satoshis out, ht)) addresses
      | _ \<Rightarrow> []) @ expected_ownership_from L n ht txid (Suc i) outs"

definition expected_ownership :: "bitcore \<Rightarrow> network \<Rightarrow> int option \<Rightarrow> tx \<Rightarrow> history_row list" where
  "expected_ownership L n ht t = expected_ownership_from L n ht (tx_id t) 0 (outputs t)"

text \<open>
  The store the spec expects after the import of block \<open>b\<close> at height \<open>h\<close> into the
  store \<open>d\<close>: \<open>d\<close> with the rows of the import at the end of their tables, and with
  empty mempool tables unless they were truncated earlier in the run.
\<close>

definition imported :: "bitcore \<Rightarrow> network \<Rightarrow> int \<Rightarrow> block \<Rightarrow> bool \<Rightarrow> db \<Rightarrow> db" where
  "imported L n h b truncated d =
     d\<lparr>t_blocks := t_blocks d @ [expected_block_row h b],
       t_transactions := t_transactions d @ map (expected_tx_row h) (transactions b),
       t_transactions_mempool := (if truncated then t_transactions_mempool d else []),
       t_history := t_history d @ concat (map (expected_ownership L n (Some h)) (transactions b)),
       t_history_mempool := (if truncated then t_history_mempool d else [])\<rparr>"

text \<open>The row of a transaction of the mempool.\<close>

definition expected_mempool_tx_row :: "tx \<Rightarrow> mempool_tx_row" where
  "expected_mempool_tx_row t = (bytea (tx_id t), bytea (tx_hex t))"

subsection \<open>Examples\<close>

text \<open>
  A library that tells the standard templates by their opcodes (\<open>OP_DUP = 118\<close>,
  \<open>OP_HASH160 = 169\<close>, \<open>OP_EQUALVERIFY = 136\<close>, \<open>OP_CHECKSIG = 172\<close>, \<open>OP_EQUAL = 135\<close>,
  \<open>OP_CHECKMULTISIG = 174\<close>; a push of \<open>k\<close> bytes has opcode \<open>k\<close>).
\<close>

definition example_bitcore :: bitcore where
  "example_bitcore =
     \<lparr>isPublicKeyHashOut = (\<lambda>s. map opcodenum (chunks s) = [118, 169, 20, 136, 172]),
      isScriptHashOut = (\<lambda>s. map opcodenum (chunks s) = [169, 20, 135]),
      multisigTail = (\<lambda>s. opcodenum (last (chunks s)) = 174),
      isPublicKeyOut = (\<lambda>s. length (chunks s) = 2 \<and> opcodenum (last (chunks s)) = 172)\<rparr>"

definition opcode :: "nat \<Rightarrow> chunk" where
  "opcode k = \<lparr>opcodenum = k, buf = None\<rparr>"

definition push :: "8 word list \<Rightarrow> chunk" where
  "push bs = \<lparr>opcodenum = length bs, buf = Some (Buffer bs)\<rparr>"

text \<open>\<open>OP_2 <key1> <key2> <key3> OP_3 OP_CHECKMULTISIG\<close>, with two-byte stand-ins for the keys.\<close>

definition multisig_2of3 :: script where
  "multisig_2of3 =
     \<lparr>chunks = [opcode 82, push [2, 1], push [2, 2], push [3, 3], opcode 83, opcode 174]\<rparr>"

definition hash20 :: "8 word list" where
  "hash20 = [1, 2, 3, 4, 5, 6, 7, 8, 9, 10, 11, 12, 13, 14, 15, 16, 17, 18, 19, 20]"

text \<open>\<open>OP_DUP OP_HASH160 <20 bytes> OP_EQUALVERIFY OP_CHECKSIG\<close>.\<close>

definition p2pkh_script :: script where
  "p2pkh_script = \<lparr>chunks = [opcode 118, opcode 169, push hash20, opcode 136, opcode 172]\<rparr>"

text \<open>\<open>OP_RETURN\<close> alone.\<close>

definition nonstandard_script :: script where
  "nonstandard_script = \<lparr>chunks = [opcode 106]\<rparr>"

definition example_address :: address where
  "example_address = Address (Some (Buffer hash20)) ''livenet'' PayToPublicKeyHash"

definition example_tx :: tx where
  "example_tx =
     \<lparr>tx_id = ''aa'', tx_hex = ''0100'',
      outputs = [\<lparr>script = p2pkh_script, satoshis = 5000\<rparr>,
                 \<lparr>script = nonstandard_script, satoshis = 0\<rparr>]\<rparr>"

definition example_block :: block where
  "example_block = \<lparr>block_id = ''b1'', header = ''h1'', transactions = [example_tx]\<rparr>"

text \<open>
  A transaction with a pay-to-public-key-hash output and a multisig output after it,
  and a block that holds it after the example transaction.
\<close>

definition multisig_tx :: tx where
  "multisig_tx =
     \<lparr>tx_id = ''cc'', tx_hex = ''0200'',
      outputs = [\<lparr>script = p2pkh_script, satoshis = 100\<rparr>,
                 \<lparr>script = multisig_2of3, satoshis = 7000\<rparr>]\<rparr>"

definition multisig_block :: block where
  "multisig_block =
     \<lparr>block_id = ''b1'', header = ''h1'', transactions = [example_tx, multisig_tx]\<rparr>"

text \<open>A store with the block of height 0 and one row in each mempool table.\<close>

definition example_db :: db where
  "example_db =
     \<lparr>t_blocks = [(0, bytea ''a0'', bytea ''h0'', bytea ''t0'')],
      t_transactions = [(bytea ''t0'', bytea ''00'', Some 0)],
      t_transactions_mempool = [(bytea ''m1'', bytea ''01'')],
      t_history = [(example_address, ''t0'', 0, 10, Some 0)],
      t_history_mempool = [(example_address, ''m1'', 0, 20)]\<rparr>"

text \<open>
  A bitcoind whose tip is \<open>(1, b1)\<close> at the first call and \<open>(1, c1)\<close> at the third, which
  serves the block of height 1, and which does not answer otherwise.
\<close>

definition example_env :: env where
  "example_env =
     \<lparr>lib = example_bitcore, net = ''livenet'',
      genesis = \<lparr>height = - 1, blockid = []\<rparr>,
      loopInterval = 1000,
      getBitcoindBestBlock =
        (\<lambda>t. if t = 0 then Inr \<lparr>height = 1, blockid = ''b1''\<rparr>
             else if t = 2 then Inr \<lparr>height = 1, blockid = ''c1''\<rparr>
             else Inl Unavailable),
      getBlock = (\<lambda>t h. if h = 1 then Inr example_block else Inl Unavailable),
      now = (\<lambda>t. 10 * int t)\<rparr>"

definition example_world :: world where
  "example_world =
     \<lparr>self = \<lparr>bestBlock = \<lparr>height = 0, blockid = ''a0''\<rparr>,
              bitcoindBestBlock = \<lparr>height = 0, blockid = ''a0''\<rparr>\<rparr>,
      store = example_db, clock = 0\<rparr>"

text \<open>The same store under a local tip below the block it holds.\<close>

definition world_behind :: world where
  "world_behind =
     \<lparr>self = \<lparr>bestBlock = \<lparr>height = - 1, blockid = []\<rparr>,
              bitcoindBestBlock = \<lparr>height = 1, blockid = ''b1''\<rparr>\<rparr>,
      store = example_db, clock = 0\<rparr>"

text \<open>A bitcoind whose tip stays at \<open>(250, z250)\<close> and which serves a block at every height.\<close>

definition env_250 :: env where
  "env_250 =
     \<lparr>lib = example_bitcore, net = ''livenet'',
      genesis = \<lparr>height = - 1, blockid = []\<rparr>,
      loopInterval = 1000,
      getBitcoindBestBlock = (\<lambda>t. Inr \<lparr>height = 250, blockid = ''z250''\<rparr>),
      getBlock = (\<lambda>t h. Inr example_block),
      now = (\<lambda>t. 10 * int t)\<rparr>"

text \<open>The local tip at height \<open>l\<close> and the remembered remote tip at height 250.\<close>

definition world_250 :: "int \<Rightarrow> world" where
  "world_250 l =
     \<lparr>self = \<lparr>bestBlock = \<lparr>height = l, blockid = ''a''\<rparr>,
              bitcoindBestBlock = \<lparr>height = 250, blockid = ''z250''\<rparr>\<rparr>,
      store = example_db, clock = 0\<rparr>"

text \<open>The store after the import of the example block at height 1.\<close>

definition example_db_1 :: db where
  "example_db_1 =
     \<lparr>t_blocks = [(0, bytea ''a0'', bytea ''h0'', bytea ''t0''),
                  (1, bytea ''b1'', bytea ''h1'', bytea ''aa'')],
      t_transactions = [(bytea ''t0'', bytea ''00'', Some 0), (bytea ''aa'', bytea ''0100'', Some 1)],
      t_transactions_mempool = [],
      t_history = [(example_address, ''t0'', 0, 10, Some 0),
                   (example_address, ''aa'', 0, 5000, Some 1)],
      t_history_mempool = []\<rparr>"

text \<open>A fork at equal height: the local tip is \<open>(1, b1)\<close>, the remote tip \<open>(1, c1)\<close>.\<close>

definition world_fork :: world where
  "world_fork =
     \<lparr>self = \<lparr>bestBlock = \<lparr>height = 1, blockid = ''b1''\<rparr>,
              bitcoindBestBlock = \<lparr>height = 1, blockid = ''c1''\<rparr>\<rparr>,
      store = example_db_1, clock = 3\<rparr>"

text \<open>The queries of the import of the example block at height 1, first of its run.\<close>

definition example_import :: "stmt list" where
  "example_import =
     [(TruncateMempool, []),
      (InsertBlocks, [SqlNum 1, SqlText (bytea ''b1''), SqlText (bytea ''h1''), SqlText (bytea ''aa'')]),
      (InsertTransactions, [SqlText (bytea ''aa''), SqlText (bytea ''0100''), SqlNum 1]),
      (InsertHistoryHeight, [SqlAddr example_address, SqlText ''aa'', SqlNum 0, SqlNum 5000, SqlNum 1])]"

section \<open>Properties\<close>

lemmas example_defs =
  example_bitcore_def opcode_def push_def multisig_2of3_def hash20_def p2pkh_script_def
  nonstandard_script_def example_address_def example_tx_def multisig_tx_def
  example_block_def multisig_block_def example_db_def example_env_def example_world_def world_behind_def
  env_250_def world_250_def example_db_1_def world_fork_def example_import_def

lemmas store_defs =
  storeTransactions_def storeTransactionsSent_def awaited_def detached_def saveOutputs_def
  saveOutput_def outputAddresses_def isMultisigOut_def isSmallIntOp_def multisigAddress_def
  sha256ripemd160_def chunk_buf_def js_slice_def saveTx_def queries_blockchain_def
  queries_mempool_def

lemmas cycle_defs =
  once_def checkSync_def reorgOrFetch_def rollbackTo_def importBlock_def reorgWork_def
  importWork_def blockValues_def tryTruncateMempool_def executeTransaction_def exec_in_def
  queries_of_def
  getBestBlock_def
  block_row_height_def tx_row_height_def history_row_height_def height_ge_def

subsection \<open>The queries of storeTransactions\<close>

lemma storeOutQueries_query: "st \<in> set (storeOutQueries q ps as) \<Longrightarrow> fst st = q"
  by (induction as arbitrary: ps) auto

lemma storeOutQueries_queries: "map fst (storeOutQueries q ps as) = replicate (length as) q"
  by (induction as arbitrary: ps) auto

lemma storeOutQueries_length: "length (storeOutQueries q ps as) = length as"
  by (induction as arbitrary: ps) auto

lemma storeOutQueries_first: "map (\<lambda>st. hd (snd st)) (storeOutQueries q ps as) = map SqlAddr as"
  by (induction as arbitrary: ps) auto

lemma saveOutput_query:
  "saveOutput L n qs h txid i out = Inr sts \<Longrightarrow> st \<in> set sts \<Longrightarrow> fst st = storeOut qs"
  by (auto simp: saveOutput_def split: sum.splits option.splits dest: storeOutQueries_query)

lemma saveOutputsFrom_query:
  "st \<in> set (fst (saveOutputsFrom L n qs h txid i outs)) \<Longrightarrow> fst st = storeOut qs"
proof (induction outs arbitrary: i)
  case Nil
  then show ?case by simp
next
  case (Cons out outs)
  show ?case
  proof (cases "saveOutput L n qs h txid i out")
    case (Inl e)
    with Cons.prems show ?thesis by simp
  next
    case (Inr sts)
    with Cons.prems have "st \<in> set sts \<or> st \<in> set (fst (saveOutputsFrom L n qs h txid (Suc i) outs))"
      by (auto split: prod.splits)
    then show ?thesis
      using Inr Cons.IH saveOutput_query by blast
  qed
qed

lemma storeTransactionsWith_query:
  "st \<in> set (fst (storeTransactionsWith L n qs h ts)) \<Longrightarrow>
     fst st = storeTx qs \<or> fst st = storeOut qs"
proof (induction ts)
  case Nil
  then show ?case by simp
next
  case (Cons t ts)
  obtain sts r where so: "saveOutputs L n qs h t = (sts, r)"
    by (cases "saveOutputs L n qs h t")
  have sts: "\<And>x. x \<in> set sts \<Longrightarrow> fst x = storeOut qs"
    using so saveOutputsFrom_query [of _ L n qs h "tx_id t" 0 "outputs t"]
    by (simp add: saveOutputs_def)
  from Cons.prems so
  have "st = saveTx qs h t \<or> st \<in> set sts \<or> st \<in> set (fst (storeTransactionsWith L n qs h ts))"
    by (cases r) (auto split: prod.splits)
  then show ?case
  proof (elim disjE)
    assume "st = saveTx qs h t"
    then show ?thesis by (simp add: saveTx_def)
  next
    assume "st \<in> set sts"
    then show ?thesis using sts by blast
  next
    assume "st \<in> set (fst (storeTransactionsWith L n qs h ts))"
    then show ?thesis using Cons.IH by blast
  qed
qed

subsection \<open>The effect of the queries on the store\<close>

lemma run_stmts_append:
  "run_stmts (xs @ ys) d = (case run_stmts xs d of Inl e \<Rightarrow> Inl e | Inr d' \<Rightarrow> run_stmts ys d')"
  by (induction xs arbitrary: d) (auto split: sum.splits)

lemma run_storeOut_blockchain:
  assumes "run_stmts (storeOutQueries InsertHistoryHeight
             [SqlText txid, SqlNum i, SqlNum v, SqlNum h] as) d = Inr d'"
  shows "d' = d\<lparr>t_history := t_history d @ map (\<lambda>a. (a, txid, i, v, Some h)) as\<rparr>"
proof (cases as)
  case Nil
  with assms show ?thesis by simp
next
  case (Cons a as')
  show ?thesis
  proof (cases as')
    case Nil
    with Cons assms show ?thesis by auto
  next
    case (Cons a' as'')
    with \<open>as = a # as'\<close> assms show ?thesis by simp
  qed
qed

lemma run_saveOutput_blockchain:
  assumes "saveOutput L n queries_blockchain (Some h) txid i out = Inr sts"
    and "run_stmts sts d = Inr d'"
  shows "d' = d\<lparr>t_history := t_history d @ expected_ownership_from L n (Some h) txid i [out]\<rparr>"
proof (cases "outputAddresses L n (script out)")
  case (Inl e)
  with assms show ?thesis by (simp add: saveOutput_def)
next
  case (Inr r)
  show ?thesis
  proof (cases r)
    case None
    with Inr assms show ?thesis by (auto simp: saveOutput_def)
  next
    case (Some as)
    with Inr assms show ?thesis
      by (auto simp: saveOutput_def queries_blockchain_def dest: run_storeOut_blockchain)
  qed
qed

lemma run_saveOutputsFrom_blockchain:
  "saveOutputsFrom L n queries_blockchain (Some h) txid i outs = (sts, None) \<Longrightarrow>
   run_stmts sts d = Inr d' \<Longrightarrow>
   d' = d\<lparr>t_history := t_history d @ expected_ownership_from L n (Some h) txid i outs\<rparr>"
proof (induction outs arbitrary: i sts d)
  case Nil
  then show ?case by simp
next
  case (Cons out outs)
  from Cons.prems(1) obtain s1 s2 where
    s1: "saveOutput L n queries_blockchain (Some h) txid i out = Inr s1" and
    s2: "saveOutputsFrom L n queries_blockchain (Some h) txid (Suc i) outs = (s2, None)" and
    sts: "sts = s1 @ s2"
    by (auto split: sum.splits prod.splits)
  from Cons.prems(2) sts obtain d1 where
    d1: "run_stmts s1 d = Inr d1" and d2: "run_stmts s2 d1 = Inr d'"
    by (auto simp: run_stmts_append split: sum.splits)
  have "d1 = d\<lparr>t_history := t_history d @ expected_ownership_from L n (Some h) txid i [out]\<rparr>"
    using s1 d1 by (rule run_saveOutput_blockchain)
  moreover have "d' = d1\<lparr>t_history := t_history d1 @ expected_ownership_from L n (Some h) txid (Suc i) outs\<rparr>"
    using s2 d2 by (rule Cons.IH)
  ultimately show ?case by simp
qed

lemma run_storeTransactionsWith_blockchain:
  "storeTransactionsWith L n queries_blockchain (Some h) ts = (sts, None) \<Longrightarrow>
   run_stmts sts d = Inr d' \<Longrightarrow>
   d' = d\<lparr>t_transactions := t_transactions d @ map (expected_tx_row h) ts,
          t_history := t_history d @ concat (map (expected_ownership L n (Some h)) ts)\<rparr>"
proof (induction ts arbitrary: sts d)
  case Nil
  then show ?case by simp
next
  case (Cons t ts)
  from Cons.prems(1) obtain s1 s2 where
    s1: "saveOutputs L n queries_blockchain (Some h) t = (s1, None)" and
    s2: "storeTransactionsWith L n queries_blockchain (Some h) ts = (s2, None)" and
    sts: "sts = saveTx queries_blockchain (Some h) t # s1 @ s2"
    by (auto split: prod.splits option.splits)
  let ?d0 = "d\<lparr>t_transactions := t_transactions d @ [expected_tx_row h t]\<rparr>"
  have d0: "exec InsertTransactions
              [SqlText (bytea (tx_id t)), SqlText (bytea (tx_hex t)), SqlNum h] d = Inr ?d0"
    by (simp add: expected_tx_row_def)
  from Cons.prems(2) sts d0 obtain d1 where
    d1: "run_stmts s1 ?d0 = Inr d1" and d2: "run_stmts s2 d1 = Inr d'"
    by (auto simp: run_stmts_append saveTx_def queries_blockchain_def split: sum.splits)
  have "d1 = ?d0\<lparr>t_history := t_history ?d0 @ expected_ownership L n (Some h) t\<rparr>"
    using s1 d1 run_saveOutputsFrom_blockchain [of L n h "tx_id t" 0 "outputs t" s1 ?d0 d1]
    by (simp add: saveOutputs_def expected_ownership_def)
  moreover have "d' = d1\<lparr>t_transactions := t_transactions d1 @ map (expected_tx_row h) ts,
      t_history := t_history d1 @ concat (map (expected_ownership L n (Some h)) ts)\<rparr>"
    using s2 d2 by (rule Cons.IH)
  ultimately show ?case by simp
qed

lemma run_storeOut_mempool:
  assumes "run_stmts (storeOutQueries InsertHistory [SqlText txid, SqlNum i, SqlNum v] as) d = Inr d'"
  shows "d' = d\<lparr>t_history := t_history d @ map (\<lambda>a. (a, txid, i, v, None)) as\<rparr>"
proof (cases as)
  case Nil
  with assms show ?thesis by simp
next
  case (Cons a as')
  show ?thesis
  proof (cases as')
    case Nil
    with Cons assms show ?thesis by auto
  next
    case (Cons a' as'')
    with \<open>as = a # as'\<close> assms show ?thesis by simp
  qed
qed

lemma run_saveOutput_mempool:
  assumes "saveOutput L n queries_mempool None txid i out = Inr sts"
    and "run_stmts sts d = Inr d'"
  shows "d' = d\<lparr>t_history := t_history d @ expected_ownership_from L n None txid i [out]\<rparr>"
proof (cases "outputAddresses L n (script out)")
  case (Inl e)
  with assms show ?thesis by (simp add: saveOutput_def)
next
  case (Inr r)
  show ?thesis
  proof (cases r)
    case None
    with Inr assms show ?thesis by (auto simp: saveOutput_def)
  next
    case (Some as)
    with Inr assms show ?thesis
      by (auto simp: saveOutput_def queries_mempool_def dest: run_storeOut_mempool)
  qed
qed

lemma run_saveOutputsFrom_mempool:
  "saveOutputsFrom L n queries_mempool None txid i outs = (sts, None) \<Longrightarrow>
   run_stmts sts d = Inr d' \<Longrightarrow>
   d' = d\<lparr>t_history := t_history d @ expected_ownership_from L n None txid i outs\<rparr>"
proof (induction outs arbitrary: i sts d)
  case Nil
  then show ?case by simp
next
  case (Cons out outs)
  from Cons.prems(1) obtain s1 s2 where
    s1: "saveOutput L n queries_mempool None txid i out = Inr s1" and
    s2: "saveOutputsFrom L n queries_mempool None txid (Suc i) outs = (s2, None)" and
    sts: "sts = s1 @ s2"
    by (auto split: sum.splits prod.splits)
  from Cons.prems(2) sts obtain d1 where
    d1: "run_stmts s1 d = Inr d1" and d2: "run_stmts s2 d1 = Inr d'"
    by (auto simp: run_stmts_append split: sum.splits)
  have "d1 = d\<lparr>t_history := t_history d @ expected_ownership_from L n None txid i [out]\<rparr>"
    using s1 d1 by (rule run_saveOutput_mempool)
  moreover have "d' = d1\<lparr>t_history := t_history d1 @ expected_ownership_from L n None txid (Suc i) outs\<rparr>"
    using s2 d2 by (rule Cons.IH)
  ultimately show ?case by simp
qed

lemma run_storeTransactionsWith_mempool:
  "storeTransactionsWith L n queries_mempool None ts = (sts, None) \<Longrightarrow>
   run_stmts sts d = Inr d' \<Longrightarrow>
   d' = d\<lparr>t_transactions_mempool := t_transactions_mempool d @ map expected_mempool_tx_row ts,
          t_history := t_history d @ concat (map (expected_ownership L n None) ts)\<rparr>"
proof (induction ts arbitrary: sts d)
  case Nil
  then show ?case by simp
next
  case (Cons t ts)
  from Cons.prems(1) obtain s1 s2 where
    s1: "saveOutputs L n queries_mempool None t = (s1, None)" and
    s2: "storeTransactionsWith L n queries_mempool None ts = (s2, None)" and
    sts: "sts = saveTx queries_mempool None t # s1 @ s2"
    by (auto split: prod.splits option.splits)
  let ?d0 = "d\<lparr>t_transactions_mempool := t_transactions_mempool d @ [expected_mempool_tx_row t]\<rparr>"
  have d0: "exec InsertTransactionsMempool
              [SqlText (bytea (tx_id t)), SqlText (bytea (tx_hex t))] d = Inr ?d0"
    by (simp add: expected_mempool_tx_row_def)
  from Cons.prems(2) sts d0 obtain d1 where
    d1: "run_stmts s1 ?d0 = Inr d1" and d2: "run_stmts s2 d1 = Inr d'"
    by (auto simp: run_stmts_append saveTx_def queries_mempool_def split: sum.splits)
  have "d1 = ?d0\<lparr>t_history := t_history ?d0 @ expected_ownership L n None t\<rparr>"
    using s1 d1 run_saveOutputsFrom_mempool [of L n "tx_id t" 0 "outputs t" s1 ?d0 d1]
    by (simp add: saveOutputs_def expected_ownership_def)
  moreover have "d' = d1\<lparr>t_transactions_mempool := t_transactions_mempool d1 @ map expected_mempool_tx_row ts,
      t_history := t_history d1 @ concat (map (expected_ownership L n None) ts)\<rparr>"
    using s2 d2 by (rule Cons.IH)
  ultimately show ?case by simp
qed

subsection \<open>The addresses of an output script\<close>

lemma multisigAddress_throws:
  "isMultisigOut L s \<Longrightarrow> multisigAddress n s pubKey = Inl InvalidArgument"
  by (auto simp: isMultisigOut_def multisigAddress_def chunk_buf_def sha256ripemd160_def)

lemma multisig_signers:
  assumes "isMultisigOut L s"
  shows "js_slice (chunks s) 1 (- 2) \<noteq> []"
proof -
  from assms have l: "3 < length (chunks s)"
    by (simp add: isMultisigOut_def)
  then have "length (js_slice (chunks s) 1 (- 2)) = length (chunks s) - 3"
    by (simp add: js_slice_def Let_def)
  with l show ?thesis by auto
qed

text \<open>The multisig branch throws at its first key chunk, whatever the keys are.\<close>

lemma multisig_throws:
  assumes "\<not> isPublicKeyHashOut L s" and "\<not> isScriptHashOut L s" and "isMultisigOut L s"
  shows "outputAddresses L n s = Inl InvalidArgument"
proof -
  from assms(3) obtain c cs where "js_slice (chunks s) 1 (- 2) = c # cs"
    using multisig_signers by (cases "js_slice (chunks s) 1 (- 2)") auto
  with assms show ?thesis
    by (simp add: outputAddresses_def multisigAddress_throws)
qed

lemma outputAddresses_one: "outputAddresses L n s = Inr (Some as) \<Longrightarrow> \<exists>a. as = [a]"
proof (cases "\<not> isPublicKeyHashOut L s \<and> \<not> isScriptHashOut L s \<and> isMultisigOut L s")
  case True
  then have "outputAddresses L n s = Inl InvalidArgument"
    by (simp add: multisig_throws)
  moreover assume "outputAddresses L n s = Inr (Some as)"
  ultimately show ?thesis by simp
next
  case False
  moreover assume "outputAddresses L n s = Inr (Some as)"
  ultimately show ?thesis
    by (auto simp: outputAddresses_def split: if_splits sum.splits)
qed

text \<open>
  C3. On the multisig script \<open>OP_2 <key1> <key2> <key3> OP_3 OP_CHECKMULTISIG\<close>, which
  has three key chunks, the extractor returns no address at all: for the first key it
  hashes the buffer of chunk 0, the opcode \<open>OP_2\<close>, which has none, and the hash
  function throws. The same holds with any of the three keys in the place of the
  argument of the callback, which is not read. So \<open>storeTransactions\<close> throws in the
  middle of a transaction with such an output, after the queries issued up to that
  output, and the import of a block that holds it fails and leaves the store as it was.
\<close>

theorem C3_multisig_throws_on_chunk_0:
  "isMultisigOut example_bitcore multisig_2of3 \<and>
   map buf (js_slice (chunks multisig_2of3) 1 (- 2)) =
     [Some (Buffer [2, 1]), Some (Buffer [2, 2]), Some (Buffer [3, 3])] \<and>
   buf (chunks multisig_2of3 ! 0) = None \<and>
   map (multisigAddress ''livenet'' multisig_2of3) (js_slice (chunks multisig_2of3) 1 (- 2)) =
     [Inl InvalidArgument, Inl InvalidArgument, Inl InvalidArgument] \<and>
   outputAddresses example_bitcore ''livenet'' multisig_2of3 = Inl InvalidArgument \<and>
   outputAddresses example_bitcore ''livenet'' multisig_2of3 \<noteq>
     Inr (Some [Address (Some (Sha256ripemd160 (Buffer [2, 1]))) ''livenet'' PayToPublicKeyHash,
                Address (Some (Sha256ripemd160 (Buffer [2, 2]))) ''livenet'' PayToPublicKeyHash,
                Address (Some (Sha256ripemd160 (Buffer [3, 3]))) ''livenet'' PayToPublicKeyHash]) \<and>
   storeTransactions example_bitcore ''livenet'' [multisig_tx] (Some 1) =
     ([(InsertTransactions, [SqlText (bytea ''cc''), SqlText (bytea ''0200''), SqlNum 1]),
       (InsertHistoryHeight,
        [SqlAddr example_address, SqlText ''cc'', SqlNum 0, SqlNum 100, SqlNum 1])],
      Some InvalidArgument) \<and>
   importBlock example_env example_world False multisig_block =
     (Inl InvalidArgument, example_world, True,
      [Import 1
         [(TruncateMempool, []),
          (InsertBlocks, [SqlNum 1, SqlText (bytea ''b1''), SqlText (bytea ''h1''),
                          SqlText (bytea ''aacc'')]),
          (InsertTransactions, [SqlText (bytea ''aa''), SqlText (bytea ''0100''), SqlNum 1]),
          (InsertHistoryHeight,
           [SqlAddr example_address, SqlText ''aa'', SqlNum 0, SqlNum 5000, SqlNum 1]),
          (InsertTransactions, [SqlText (bytea ''cc''), SqlText (bytea ''0200''), SqlNum 1]),
          (InsertHistoryHeight,
           [SqlAddr example_address, SqlText ''cc'', SqlNum 0, SqlNum 100, SqlNum 1])]
         (Some InvalidArgument)])"
proof -
  have m: "isMultisigOut example_bitcore multisig_2of3"
    by (simp add: isMultisigOut_def isSmallIntOp_def example_defs)
  have sl: "js_slice (chunks multisig_2of3) 1 (- 2) = [push [2, 1], push [2, 2], push [3, 3]]"
    by (simp add: js_slice_def multisig_2of3_def)
  have a: "outputAddresses example_bitcore ''livenet'' multisig_2of3 = Inl InvalidArgument"
    by (rule multisig_throws) (simp_all add: m, simp_all add: example_defs)
  have s: "storeTransactions example_bitcore ''livenet'' [multisig_tx] (Some 1) =
     ([(InsertTransactions, [SqlText (bytea ''cc''), SqlText (bytea ''0200''), SqlNum 1]),
       (InsertHistoryHeight,
        [SqlAddr example_address, SqlText ''cc'', SqlNum 0, SqlNum 100, SqlNum 1])],
      Some InvalidArgument)"
    by (simp add: store_defs example_defs)
  have i: "importBlock example_env example_world False multisig_block =
     (Inl InvalidArgument, example_world, True,
      [Import 1
         [(TruncateMempool, []),
          (InsertBlocks, [SqlNum 1, SqlText (bytea ''b1''), SqlText (bytea ''h1''),
                          SqlText (bytea ''aacc'')]),
          (InsertTransactions, [SqlText (bytea ''aa''), SqlText (bytea ''0100''), SqlNum 1]),
          (InsertHistoryHeight,
           [SqlAddr example_address, SqlText ''aa'', SqlNum 0, SqlNum 5000, SqlNum 1]),
          (InsertTransactions, [SqlText (bytea ''cc''), SqlText (bytea ''0200''), SqlNum 1]),
          (InsertHistoryHeight,
           [SqlAddr example_address, SqlText ''cc'', SqlNum 0, SqlNum 100, SqlNum 1])]
         (Some InvalidArgument)])"
    by (simp add: cycle_defs store_defs example_defs)
  from m sl a s i show ?thesis
    by (simp add: multisigAddress_throws) (simp add: multisig_2of3_def opcode_def push_def)
qed

text \<open>
  C7. A script that bitcore takes for pay-to-public-key-hash (and that has the chunk of
  the hash, chunk 2) yields exactly one address, built from the buffer of that chunk
  and tagged pay-to-public-key-hash. A script that is none of the four kinds (the
  empty script among them, for a library that takes it for none) yields no address:
  its output issues no ownership query, the queries of the later outputs follow as if
  it were not there, and the query of the row of the transaction is issued all the same.
\<close>

theorem C7_p2pkh_one_address_nonstandard_none:
  "(isPublicKeyHashOut L s \<and> 2 < length (chunks s) \<longrightarrow>
      outputAddresses L n s = Inr (Some [Address (buf (chunks s ! 2)) n PayToPublicKeyHash])) \<and>
   (\<not> isPublicKeyHashOut L s' \<and> \<not> isScriptHashOut L s' \<and> \<not> isMultisigOut L s' \<and>
    \<not> isPublicKeyOut L s' \<longrightarrow>
      outputAddresses L n s' = Inr None \<and>
      saveOutput L n qs h txid i \<lparr>script = s', satoshis = v\<rparr> = Inr [] \<and>
      saveOutputsFrom L n qs h txid i (\<lparr>script = s', satoshis = v\<rparr> # outs) =
        saveOutputsFrom L n qs h txid (Suc i) outs) \<and>
   (\<exists>sts r. storeTransactionsWith L n qs h (t # ts) = (saveTx qs h t # sts, r))"
  by (auto simp: outputAddresses_def chunk_buf_def saveOutput_def split: prod.splits option.splits)

theorem C7_p2pkh_one_address_nonstandard_none_witness:
  "isPublicKeyHashOut example_bitcore p2pkh_script \<and> 2 < length (chunks p2pkh_script) \<and>
   outputAddresses example_bitcore ''livenet'' p2pkh_script = Inr (Some [example_address]) \<and>
   outputAddresses example_bitcore ''livenet'' nonstandard_script = Inr None \<and>
   outputAddresses example_bitcore ''livenet'' \<lparr>chunks = []\<rparr> = Inr None \<and>
   storeTransactions example_bitcore ''livenet'' [example_tx] (Some 7) =
     ([(InsertTransactions, [SqlText (bytea ''aa''), SqlText (bytea ''0100''), SqlNum 7]),
       (InsertHistoryHeight,
        [SqlAddr example_address, SqlText ''aa'', SqlNum 0, SqlNum 5000, SqlNum 7])], None)"
proof -
  have p: "isPublicKeyHashOut example_bitcore p2pkh_script \<and> 2 < length (chunks p2pkh_script)"
    by (simp add: example_defs)
  have ns: "\<not> isPublicKeyHashOut example_bitcore nonstandard_script \<and>
            \<not> isScriptHashOut example_bitcore nonstandard_script \<and>
            \<not> isMultisigOut example_bitcore nonstandard_script \<and>
            \<not> isPublicKeyOut example_bitcore nonstandard_script"
    by (simp add: isMultisigOut_def example_defs)
  have em: "\<not> isPublicKeyHashOut example_bitcore \<lparr>chunks = []\<rparr> \<and>
            \<not> isScriptHashOut example_bitcore \<lparr>chunks = []\<rparr> \<and>
            \<not> isMultisigOut example_bitcore \<lparr>chunks = []\<rparr> \<and>
            \<not> isPublicKeyOut example_bitcore \<lparr>chunks = []\<rparr>"
    by (simp add: isMultisigOut_def example_defs)
  note use = C7_p2pkh_one_address_nonstandard_none
    [of example_bitcore p2pkh_script "''livenet''" _ queries_blockchain "Some 7" "''aa''" 1 0
        "[]" example_tx "[]"]
  from p use [of nonstandard_script]
  have a1: "outputAddresses example_bitcore ''livenet'' p2pkh_script = Inr (Some [example_address])"
    by (simp add: example_defs)
  from ns use [of nonstandard_script]
  have a2: "outputAddresses example_bitcore ''livenet'' nonstandard_script = Inr None \<and>
      saveOutputsFrom example_bitcore ''livenet'' queries_blockchain (Some 7) ''aa'' 1
        [\<lparr>script = nonstandard_script, satoshis = 0\<rparr>] = ([], None)"
    by simp
  from em use [of "\<lparr>chunks = []\<rparr>"]
  have a3: "outputAddresses example_bitcore ''livenet'' \<lparr>chunks = []\<rparr> = Inr None"
    by simp
  have "storeTransactions example_bitcore ''livenet'' [example_tx] (Some 7) =
     ([(InsertTransactions, [SqlText (bytea ''aa''), SqlText (bytea ''0100''), SqlNum 7]),
       (InsertHistoryHeight,
        [SqlAddr example_address, SqlText ''aa'', SqlNum 0, SqlNum 5000, SqlNum 7])], None)"
    using a1 a2
    by (simp add: storeTransactions_def saveOutputs_def saveOutput_def saveTx_def
          queries_blockchain_def example_tx_def)
  with p a1 a2 a3 show ?thesis by simp
qed

text \<open>
  C10. In mempool mode (\<open>height\<close> absent) every query of \<open>storeTransactions\<close> is either
  the insert into \<open>transactions_mempool\<close> or the four-column insert into \<open>history\<close>, and
  none names \<open>history_mempool\<close>; an output with addresses issues one insert into
  \<open>history\<close> per address, with the address as first parameter and no height; and when
  the queries are accepted, the store gains the rows of the transactions in
  \<open>transactions_mempool\<close> and the ownership rows, without height, in \<open>history\<close>, and is
  otherwise unchanged.
\<close>

theorem C10_mempool_mode_writes_history:
  "(\<forall>st \<in> set (fst (storeTransactions L n txs None)).
      (fst st = InsertTransactionsMempool \<or> fst st = InsertHistory) \<and>
      HistoryMempool \<notin> set (tables_of (fst st))) \<and>
   (outputAddresses L n (script out) = Inr (Some as) \<longrightarrow>
      (\<exists>sts. saveOutput L n queries_mempool None txid i out = Inr sts \<and>
         map fst sts = replicate (length as) InsertHistory \<and>
         map (\<lambda>st. hd (snd st)) sts = map SqlAddr as)) \<and>
   (storeTransactions L n txs None = (sts', None) \<and> run_stmts sts' d = Inr d' \<longrightarrow>
      d' = d\<lparr>t_transactions_mempool := t_transactions_mempool d @ map expected_mempool_tx_row txs,
             t_history := t_history d @ concat (map (expected_ownership L n None) txs)\<rparr>)"
proof (intro conjI ballI impI)
  fix st
  assume "st \<in> set (fst (storeTransactions L n txs None))"
  then have "fst st = InsertTransactionsMempool \<or> fst st = InsertHistory"
    using storeTransactionsWith_query [of st L n queries_mempool None txs]
    by (simp add: storeTransactions_def queries_mempool_def)
  then show "fst st = InsertTransactionsMempool \<or> fst st = InsertHistory"
    and "HistoryMempool \<notin> set (tables_of (fst st))"
    by auto
next
  assume a: "outputAddresses L n (script out) = Inr (Some as)"
  let ?sts = "storeOutQueries InsertHistory [SqlText txid, SqlNum (int i), SqlNum (satoshis out)] as"
  have "saveOutput L n queries_mempool None txid i out = Inr ?sts"
    using a by (simp add: saveOutput_def queries_mempool_def)
  moreover have "map fst ?sts = replicate (length as) InsertHistory"
    by (rule storeOutQueries_queries)
  moreover have "map (\<lambda>st. hd (snd st)) ?sts = map SqlAddr as"
    by (rule storeOutQueries_first)
  ultimately show "\<exists>sts. saveOutput L n queries_mempool None txid i out = Inr sts \<and>
         map fst sts = replicate (length as) InsertHistory \<and>
         map (\<lambda>st. hd (snd st)) sts = map SqlAddr as"
    by blast
next
  assume "storeTransactions L n txs None = (sts', None) \<and> run_stmts sts' d = Inr d'"
  then show "d' = d\<lparr>t_transactions_mempool := t_transactions_mempool d @ map expected_mempool_tx_row txs,
             t_history := t_history d @ concat (map (expected_ownership L n None) txs)\<rparr>"
    using run_storeTransactionsWith_mempool [of L n txs sts' d d']
    by (simp add: storeTransactions_def)
qed

theorem C10_mempool_mode_writes_history_witness:
  "storeTransactions example_bitcore ''livenet'' [example_tx] None =
     ([(InsertTransactionsMempool, [SqlText (bytea ''aa''), SqlText (bytea ''0100'')]),
       (InsertHistory, [SqlAddr example_address, SqlText ''aa'', SqlNum 0, SqlNum 5000])], None) \<and>
   tables_of InsertTransactionsMempool = [TransactionsMempool] \<and>
   tables_of InsertHistory = [History] \<and>
   run_stmts (fst (storeTransactions example_bitcore ''livenet'' [example_tx] None)) example_db =
     Inr (example_db
       \<lparr>t_transactions_mempool := t_transactions_mempool example_db @ [(bytea ''aa'', bytea ''0100'')],
        t_history := t_history example_db @ [(example_address, ''aa'', 0, 5000, None)]\<rparr>)"
proof -
  let ?sts = "[(InsertTransactionsMempool, [SqlText (bytea ''aa''), SqlText (bytea ''0100'')]),
       (InsertHistory, [SqlAddr example_address, SqlText ''aa'', SqlNum 0, SqlNum 5000])]"
  let ?out = "\<lparr>script = p2pkh_script, satoshis = 5000\<rparr>"
  have a: "outputAddresses example_bitcore ''livenet'' (script ?out) = Inr (Some [example_address])"
    by (simp add: store_defs example_defs)
  have s: "storeTransactions example_bitcore ''livenet'' [example_tx] None = (?sts, None)"
    by (simp add: store_defs example_defs)
  obtain d' where r: "run_stmts ?sts example_db = Inr d'"
    by simp
  have e: "expected_ownership example_bitcore ''livenet'' None example_tx =
      [(example_address, ''aa'', 0, 5000, None)]"
    by (simp add: expected_ownership_def outputAddresses_def isMultisigOut_def chunk_buf_def
          example_defs)
  note use = C10_mempool_mode_writes_history
    [of example_bitcore "''livenet''" "[example_tx]" ?out "[example_address]" "''aa''" 0 ?sts
        example_db d']
  from use a have "\<exists>sts. saveOutput example_bitcore ''livenet'' queries_mempool None ''aa'' 0 ?out = Inr sts \<and>
      map fst sts = [InsertHistory] \<and> map (\<lambda>st. hd (snd st)) sts = [SqlAddr example_address]"
    by simp
  moreover from use s have "\<forall>st \<in> set ?sts. HistoryMempool \<notin> set (tables_of (fst st))"
    by simp
  moreover from use s r e
  have "d' = example_db
       \<lparr>t_transactions_mempool := t_transactions_mempool example_db @ [(bytea ''aa'', bytea ''0100'')],
        t_history := t_history example_db @ [(example_address, ''aa'', 0, 5000, None)]\<rparr>"
    by (simp add: expected_mempool_tx_row_def example_tx_def)
  ultimately show ?thesis using s r by simp
qed

subsection \<open>Storage transactions\<close>

lemma exec_error: "exec q ps d = Inl e \<Longrightarrow> e = StorageError"
  by (cases q) (auto split: option.splits if_splits)

lemma run_stmts_error: "run_stmts sts d = Inl e \<Longrightarrow> e = StorageError"
  by (induction sts arbitrary: d) (auto split: sum.splits dest: exec_error)

lemma map_fst_awaited: "map fst (awaited sts) = sts"
  by (simp add: awaited_def comp_def)

lemma map_fst_detached: "map fst (detached sts) = sts"
  by (simp add: detached_def comp_def)

lemma exec_in_error: "exec_in st s = Inl e \<Longrightarrow> e = StorageError"
  by (cases s) (auto simp: exec_in_def dest: exec_error)

lemma run_sent_error: "run_sent sent s = (Some e, s') \<Longrightarrow> e = StorageError"
proof (induction sent arbitrary: s)
  case Nil
  then show ?case by simp
next
  case (Cons x sent)
  obtain st waits where x: "x = (st, waits)" by (cases x)
  from Cons x show ?case
    by (auto split: sum.splits if_splits dest: exec_in_error)
qed

text \<open>Once aborted, a transaction stays aborted.\<close>

lemma run_sent_aborted: "run_sent sent Aborted = (r, s) \<Longrightarrow> s = Aborted"
proof (induction sent)
  case Nil
  then show ?case by simp
next
  case (Cons x sent)
  obtain st waits where x: "x = (st, waits)" by (cases x)
  from Cons x show ?case
    by (auto simp: exec_in_def split: if_splits)
qed

text \<open>A step that leaves the transaction active had all its queries accepted.\<close>

lemma run_sent_active:
  "run_sent sent (Active d) = (r, Active d') \<Longrightarrow>
     r = None \<and> run_stmts (map fst sent) d = Inr d'"
proof (induction sent arbitrary: d)
  case Nil
  then show ?case by simp
next
  case (Cons x sent)
  obtain q ps waits where x: "x = ((q, ps), waits)" by (cases x) auto
  show ?case
  proof (cases "exec q ps d")
    case (Inl e)
    with Cons.prems x show ?thesis
      by (auto simp: exec_in_def split: if_splits dest: run_sent_aborted)
  next
    case (Inr d1)
    with Cons.prems x have "run_sent sent (Active d1) = (r, Active d')"
      by (simp add: exec_in_def)
    from Cons.IH [OF this] Inr x show ?thesis by simp
  qed
qed

text \<open>A step that waits for all its queries.\<close>

lemma run_sent_awaited:
  "run_sent (awaited sts) (Active d) =
     (case run_stmts sts d of Inl e \<Rightarrow> (Some e, Aborted) | Inr d' \<Rightarrow> (None, Active d'))"
proof (induction sts arbitrary: d)
  case Nil
  then show ?case by (simp add: awaited_def)
next
  case (Cons st sts)
  obtain q ps where st: "st = (q, ps)" by (cases st)
  from Cons [unfolded awaited_def] st show ?case
    by (simp add: awaited_def exec_in_def split: sum.splits)
qed

text \<open>
  A step whose promise is fulfilled leaves the transaction active when the store
  accepts, in any state, each query that the promise does not wait for.
\<close>

lemma run_sent_fulfilled:
  assumes "\<forall>x \<in> set sent. \<not> snd x \<longrightarrow> (\<forall>d. \<exists>d'. exec (fst (fst x)) (snd (fst x)) d = Inr d')"
    and "run_sent sent (Active d) = (None, s)"
  shows "\<exists>d'. s = Active d'"
  using assms
proof (induction sent arbitrary: d)
  case Nil
  then show ?case by auto
next
  case (Cons x sent)
  obtain q ps waits where x: "x = ((q, ps), waits)" by (cases x) auto
  show ?case
  proof (cases "exec q ps d")
    case (Inl e)
    show ?thesis
    proof (cases waits)
      case True
      with Inl Cons.prems(2) x show ?thesis by (simp add: exec_in_def)
    next
      case False
      with Cons.prems(1) x have "\<forall>d. \<exists>d'. exec q ps d = Inr d'" by simp
      then have "\<exists>d'. exec q ps d = Inr d'" ..
      with Inl show ?thesis by simp
    qed
  next
    case (Inr d1)
    with Cons.prems(2) x have "run_sent sent (Active d1) = (None, s)"
      by (simp add: exec_in_def)
    with Cons.IH Cons.prems(1) show ?thesis by simp
  qed
qed

lemma run_work_aborted: "run_work steps Aborted = Inr s \<Longrightarrow> s = Aborted"
proof (induction steps)
  case Nil
  then show ?case by simp
next
  case (Cons step steps)
  obtain sent x where step: "step = (sent, x)" by (cases step)
  show ?case
  proof (cases x)
    case (Some e)
    with Cons.prems step show ?thesis by simp
  next
    case None
    obtain r1 s1 where r: "run_sent sent Aborted = (r1, s1)"
      by (cases "run_sent sent Aborted")
    then have "s1 = Aborted" by (rule run_sent_aborted)
    with Cons None step r show ?thesis
      by (cases r1) auto
  qed
qed

text \<open>A callback that leaves the transaction active had all the queries of all its steps accepted.\<close>

lemma run_work_active:
  "run_work steps (Active d) = Inr (Active d') \<Longrightarrow>
     run_stmts (queries_of steps) d = Inr d' \<and> (\<forall>step \<in> set steps. snd step = None)"
proof (induction steps arbitrary: d)
  case Nil
  then show ?case by (simp add: queries_of_def)
next
  case (Cons step steps)
  obtain sent x where step: "step = (sent, x)" by (cases step)
  show ?case
  proof (cases x)
    case (Some e)
    with Cons.prems step show ?thesis by simp
  next
    case None
    obtain r1 s1 where r: "run_sent sent (Active d) = (r1, s1)"
      by (cases "run_sent sent (Active d)")
    with Cons.prems None step have r1: "r1 = None" and w: "run_work steps s1 = Inr (Active d')"
      by (cases r1; simp)+
    have "s1 \<noteq> Aborted"
      using w run_work_aborted by fastforce
    then obtain d1 where s1: "s1 = Active d1" by (cases s1) auto
    from run_sent_active [of sent d r1 d1] r s1
    have "run_stmts (map fst sent) d = Inr d1" by simp
    moreover from Cons.IH [of d1] w s1
    have "run_stmts (queries_of steps) d1 = Inr d'" and "\<forall>step \<in> set steps. snd step = None"
      by simp_all
    ultimately show ?thesis
      using step None by (simp add: queries_of_def run_stmts_append)
  qed
qed

lemma run_work_error:
  "run_work steps s = Inl e \<Longrightarrow> e = StorageError \<or> (\<exists>sent. (sent, Some e) \<in> set steps)"
proof (induction steps arbitrary: s)
  case Nil
  then show ?case by simp
next
  case (Cons step steps)
  obtain sent r where step: "step = (sent, r)" by (cases step)
  show ?case
  proof (cases r)
    case (Some x)
    with Cons.prems step show ?thesis by auto
  next
    case None
    obtain r1 s1 where r: "run_sent sent s = (r1, s1)"
      by (cases "run_sent sent s")
    show ?thesis
    proof (cases r1)
      case (Some x)
      with Cons.prems None step r have "e = x" by simp
      with r Some run_sent_error show ?thesis by blast
    next
      case n: None
      with Cons.prems None step r have "run_work steps s1 = Inl e" by simp
      from Cons.IH [OF this] show ?thesis by auto
    qed
  qed
qed

text \<open>
  Whatever the callback, a transaction leaves the store as it was, or ends without an
  error and leaves the store as all the queries of the callback, all accepted, made it.
\<close>

lemma executeTransaction_atomic:
  assumes "executeTransaction steps d = (r, d')"
  shows "d' = d \<or> (r = Inr () \<and> run_stmts (queries_of steps) d = Inr d')"
proof (cases "run_work steps (Active d)")
  case (Inl e)
  with assms show ?thesis by (simp add: executeTransaction_def)
next
  case (Inr s)
  show ?thesis
  proof (cases s)
    case (Active d1)
    with Inr assms have "d' = d1" and "r = Inr ()"
      by (simp_all add: executeTransaction_def)
    with Inr Active run_work_active [of steps d d1] show ?thesis by simp
  next
    case Aborted
    with Inr assms show ?thesis by (simp add: executeTransaction_def)
  qed
qed

subsection \<open>The transaction of an import\<close>

lemma storeTransactionsSentWith_queries:
  "map fst (fst (storeTransactionsSentWith L n qs h ts)) = fst (storeTransactionsWith L n qs h ts) \<and>
   snd (storeTransactionsSentWith L n qs h ts) = snd (storeTransactionsWith L n qs h ts)"
  by (induction ts)
     (auto simp: awaited_def detached_def comp_def split: prod.splits option.splits)

lemma storeTransactionsSent_queries:
  "storeTransactionsSent L n txs h = (sent, r) \<Longrightarrow> storeTransactions L n txs h = (map fst sent, r)"
  using storeTransactionsSentWith_queries
    [of L n "if h = None then queries_mempool else queries_blockchain" h txs]
  by (auto simp: storeTransactionsSent_def storeTransactions_def prod_eq_iff)

text \<open>
  The queries that the promise of \<open>storeTransactions\<close> does not wait for are the
  ownership inserts, one per output with an address; the store accepts each of them.
\<close>

lemma saveOutput_accepted:
  assumes "saveOutput L n queries_blockchain (Some h) txid i out = Inr sts" and "st \<in> set sts"
  shows "\<exists>d'. exec (fst st) (snd st) d = Inr d'"
proof (cases "outputAddresses L n (script out)")
  case (Inl e)
  with assms show ?thesis by (simp add: saveOutput_def)
next
  case (Inr r)
  show ?thesis
  proof (cases r)
    case None
    with Inr assms show ?thesis by (simp add: saveOutput_def)
  next
    case (Some as)
    with Inr obtain a where "as = [a]"
      using outputAddresses_one by blast
    with Some Inr assms show ?thesis
      by (auto simp: saveOutput_def queries_blockchain_def)
  qed
qed

lemma saveOutputsFrom_accepted:
  "st \<in> set (fst (saveOutputsFrom L n queries_blockchain (Some h) txid i outs)) \<Longrightarrow>
     \<exists>d'. exec (fst st) (snd st) d = Inr d'"
proof (induction outs arbitrary: i)
  case Nil
  then show ?case by simp
next
  case (Cons out outs)
  show ?case
  proof (cases "saveOutput L n queries_blockchain (Some h) txid i out")
    case (Inl e)
    with Cons.prems show ?thesis by simp
  next
    case (Inr sts)
    with Cons.prems have "st \<in> set sts \<or>
        st \<in> set (fst (saveOutputsFrom L n queries_blockchain (Some h) txid (Suc i) outs))"
      by (auto split: prod.splits)
    then show ?thesis
      using Inr Cons.IH saveOutput_accepted by blast
  qed
qed

lemma storeTransactionsSentWith_detached:
  "x \<in> set (fst (storeTransactionsSentWith L n queries_blockchain (Some h) ts)) \<Longrightarrow> \<not> snd x \<Longrightarrow>
     \<exists>d'. exec (fst (fst x)) (snd (fst x)) d = Inr d'"
proof (induction ts)
  case Nil
  then show ?case by simp
next
  case (Cons t ts)
  obtain sts r where so: "saveOutputs L n queries_blockchain (Some h) t = (sts, r)"
    by (cases "saveOutputs L n queries_blockchain (Some h) t")
  have sts: "\<And>st. st \<in> set sts \<Longrightarrow> \<exists>d'. exec (fst st) (snd st) d = Inr d'"
    using so saveOutputsFrom_accepted [of _ L n h "tx_id t" 0 "outputs t" d]
    by (simp add: saveOutputs_def)
  from Cons.prems so
  have "fst x \<in> set sts \<or>
        x \<in> set (fst (storeTransactionsSentWith L n queries_blockchain (Some h) ts))"
    by (cases r) (auto simp: awaited_def detached_def split: prod.splits)
  then show ?case
  proof
    assume "fst x \<in> set sts"
    then show ?thesis using sts by blast
  next
    assume "x \<in> set (fst (storeTransactionsSentWith L n queries_blockchain (Some h) ts))"
    then show ?thesis using Cons.IH Cons.prems(2) by blast
  qed
qed

lemma importWork_steps:
  "importWork L n h b flag =
     ([(awaited (if flag then [] else [(TruncateMempool, [])]), None),
       (awaited [(InsertBlocks, blockValues h b)], None),
       storeTransactionsSent L n (transactions b) (Some h)], True)"
  by (simp add: importWork_def tryTruncateMempool_def)

lemma importWork_queries:
  "queries_of (fst (importWork L n h b flag)) =
     (if flag then [] else [(TruncateMempool, [])]) @
     (InsertBlocks, blockValues h b) #
     fst (storeTransactions L n (transactions b) (Some h))"
proof -
  obtain sent r where s: "storeTransactionsSent L n (transactions b) (Some h) = (sent, r)"
    by (cases "storeTransactionsSent L n (transactions b) (Some h)")
  from storeTransactionsSent_queries [OF s] s show ?thesis
    by (simp add: importWork_steps queries_of_def map_fst_awaited)
qed

text \<open>
  The callback of an import whose promise is fulfilled leaves the transaction active,
  with the rows of the block in the store.
\<close>

lemma run_importWork:
  assumes "run_work (fst (importWork L n h b flag)) (Active d) = Inr s"
  shows "s = Active (d\<lparr>t_blocks := t_blocks d @ [expected_block_row h b],
                 t_transactions := t_transactions d @ map (expected_tx_row h) (transactions b),
                 t_transactions_mempool := (if flag then t_transactions_mempool d else []),
                 t_history :=
                   t_history d @ concat (map (expected_ownership L n (Some h)) (transactions b)),
                 t_history_mempool := (if flag then t_history_mempool d else [])\<rparr>)"
proof -
  let ?d0 = "if flag then d else d\<lparr>t_transactions_mempool := [], t_history_mempool := []\<rparr>"
  let ?d1 = "?d0\<lparr>t_blocks := t_blocks ?d0 @ [expected_block_row h b]\<rparr>"
  obtain sent r2 where s2: "storeTransactionsSent L n (transactions b) (Some h) = (sent, r2)"
    by (cases "storeTransactionsSent L n (transactions b) (Some h)")
  from assms s2 have w: "run_work [(sent, r2)] (Active ?d1) = Inr s"
    by (cases flag)
       (auto simp: importWork_steps run_sent_awaited expected_block_row_def blockValues_def
             split: sum.splits if_splits)
  then have r2: "r2 = None" by (cases r2) simp_all
  with w have rs: "run_sent sent (Active ?d1) = (None, s)"
    by (auto split: prod.splits option.splits)
  have "\<forall>x \<in> set sent. \<not> snd x \<longrightarrow> (\<forall>d. \<exists>d'. exec (fst (fst x)) (snd (fst x)) d = Inr d')"
    using s2 storeTransactionsSentWith_detached [of _ L n h "transactions b"]
    by (auto simp: storeTransactionsSent_def)
  from run_sent_fulfilled [OF this rs] obtain d' where s: "s = Active d'" by blast
  with rs have "run_stmts (map fst sent) ?d1 = Inr d'"
    using run_sent_active by blast
  moreover from storeTransactionsSent_queries [OF s2] r2
  have "storeTransactionsWith L n queries_blockchain (Some h) (transactions b) = (map fst sent, None)"
    by (simp add: storeTransactions_def)
  ultimately
  have "d' = ?d1\<lparr>t_transactions := t_transactions ?d1 @ map (expected_tx_row h) (transactions b),
          t_history := t_history ?d1 @ concat (map (expected_ownership L n (Some h)) (transactions b))\<rparr>"
    using run_storeTransactionsWith_blockchain by blast
  with s show ?thesis by (cases flag) simp_all
qed

subsection \<open>The rollback of the reorg branch\<close>

lemma reorgWork_truncated:
  "reorgWork h True =
     ([(awaited [(DeleteBlocks, [SqlNum h]), (DeleteTransactions, [SqlNum h]),
                 (DeleteHistory, [SqlNum h])], None)], True)"
  by (simp add: reorgWork_def tryTruncateMempool_def)

lemma reorgWork_not_truncated:
  "reorgWork h False =
     ([(awaited [(DeleteBlocks, [SqlNum h]), (DeleteTransactions, [SqlNum h]),
                 (DeleteHistory, [SqlNum h])], Some TypeError)], True)"
  by (simp add: reorgWork_def tryTruncateMempool_def)

lemma run_deletes:
  "run_stmts [(DeleteBlocks, [SqlNum h]), (DeleteTransactions, [SqlNum h]),
              (DeleteHistory, [SqlNum h])] d = Inr (below_height h d)"
proof -
  have 1: "(\<lambda>r. \<not> h \<le> block_row_height r) = (\<lambda>r. block_row_height r < h)"
    by auto
  have 2: "(\<lambda>r. \<not> height_ge (tx_row_height r) h) =
           (\<lambda>r. case tx_row_height r of None \<Rightarrow> True | Some x \<Rightarrow> x < h)"
    by (auto simp: height_ge_def split: option.splits)
  have 3: "(\<lambda>r. \<not> height_ge (history_row_height r) h) =
           (\<lambda>r. case history_row_height r of None \<Rightarrow> True | Some x \<Rightarrow> x < h)"
    by (auto simp: height_ge_def split: option.splits)
  show ?thesis by (simp add: 1 2 3 below_height_def)
qed

lemma filter_twice: "filter P (filter P xs) = filter P xs"
  by (induction xs) auto

lemma below_height_twice: "below_height h (below_height h d) = below_height h d"
  by (simp add: below_height_def filter_twice del: filter_filter)

lemma below_height_mempool:
  "t_transactions_mempool (below_height h d) = t_transactions_mempool d"
  "t_history_mempool (below_height h d) = t_history_mempool d"
  by (simp_all add: below_height_def)

lemma rollbackTo_truncated:
  "rollbackTo E w True =
     (ReorgFound,
      w\<lparr>self := (self w)\<lparr>bestBlock := getBestBlock (genesis E)
                   (below_height (height (bitcoindBestBlock (self w))) (store w))\<rparr>,
        store := below_height (height (bitcoindBestBlock (self w))) (store w)\<rparr>,
      True,
      [Rollback (height (bitcoindBestBlock (self w)))
         [(DeleteBlocks, [SqlNum (height (bitcoindBestBlock (self w)))]),
          (DeleteTransactions, [SqlNum (height (bitcoindBestBlock (self w)))]),
          (DeleteHistory, [SqlNum (height (bitcoindBestBlock (self w)))])] None])"
  unfolding rollbackTo_def Let_def reorgWork_truncated executeTransaction_def
  by (simp add: run_sent_awaited run_deletes queries_of_def map_fst_awaited
        del: run_stmts.simps)

lemma rollbackTo_not_truncated:
  "rollbackTo E w False =
     (TypeError, w, True,
      [Rollback (height (bitcoindBestBlock (self w)))
         [(DeleteBlocks, [SqlNum (height (bitcoindBestBlock (self w)))]),
          (DeleteTransactions, [SqlNum (height (bitcoindBestBlock (self w)))]),
          (DeleteHistory, [SqlNum (height (bitcoindBestBlock (self w)))])] (Some TypeError)])"
  unfolding rollbackTo_def Let_def reorgWork_not_truncated executeTransaction_def
  by (simp add: queries_of_def map_fst_awaited)

lemma rollbackTo_committed:
  assumes "rollbackTo E w flag = (x, w', flag', [Rollback h sts None])"
  shows "flag" and "rollbackTo E w True = (x, w', flag', [Rollback h sts None])"
proof -
  show "flag"
    using assms rollbackTo_not_truncated [of E w] by (cases flag) auto
  with assms show "rollbackTo E w True = (x, w', flag', [Rollback h sts None])"
    by simp
qed

text \<open>
  A rollback whose transaction commits leaves in \<open>blocks\<close>, \<open>transactions\<close> and
  \<open>history\<close> exactly the rows below the height of the remote tip (and those without
  height), in their order and unchanged.
\<close>

lemma rollbackTo_deletes_from_height:
  assumes "rollbackTo E w flag = (x, w', flag', [Rollback h sts None])"
  shows "h = height (bitcoindBestBlock (self w)) \<and>
         t_blocks (store w') = filter (\<lambda>r. block_row_height r < h) (t_blocks (store w)) \<and>
         t_transactions (store w') =
           filter (\<lambda>r. case tx_row_height r of None \<Rightarrow> True | Some x \<Rightarrow> x < h)
             (t_transactions (store w)) \<and>
         t_history (store w') =
           filter (\<lambda>r. case history_row_height r of None \<Rightarrow> True | Some x \<Rightarrow> x < h)
             (t_history (store w))"
proof -
  from rollbackTo_committed(2) [OF assms]
  have "rollbackTo E w True = (x, w', flag', [Rollback h sts None])" .
  then show ?thesis
    unfolding rollbackTo_truncated by (auto simp: below_height_def)
qed

text \<open>
  A rollback before \<open>tryTruncateMempool\<close> has run in the call, as when the first cycle
  of a call finds a fork: \<open>tryTruncateMempool()\<close> is called without the client, the read
  of \<open>client.queryAsync\<close> throws, the transaction is rolled back and the call is
  rejected with the \<open>TypeError\<close>.
\<close>

lemma rollback_first_in_run:
  "catchUp 1 example_env (world_fork\<lparr>clock := 2\<rparr>) =
     (Some (Inl TypeError), world_fork\<lparr>clock := 3\<rparr>,
      [TipQuery,
       Rollback 1 [(DeleteBlocks, [SqlNum 1]), (DeleteTransactions, [SqlNum 1]),
                   (DeleteHistory, [SqlNum 1])] (Some TypeError)])"
  by (simp add: catchUp_def once_def checkSync_def reorgOrFetch_def rollbackTo_not_truncated
        example_env_def world_fork_def)

text \<open>
  C4. A rollback in a call of \<open>catchUp\<close> in which \<open>tryTruncateMempool\<close> has not run yet
  deletes nothing, whatever the store and the height: the three deletes are issued,
  then \<open>tryTruncateMempool()\<close>, called without the client, throws a \<open>TypeError\<close> at
  \<open>client.queryAsync\<close>, and the transaction is rolled back. So it is when the first
  cycle of a call finds a fork: with the local tip \<open>(1, b1)\<close> and the remote tip
  \<open>(1, c1)\<close> the rollback to height 1 leaves the rows of height 1 where they were, in
  all three tables, and the call is rejected with the \<open>TypeError\<close>.
\<close>

theorem C4_first_rollback_deletes_nothing:
  "rollbackTo E w False =
     (TypeError, w, True,
      [Rollback (height (bitcoindBestBlock (self w)))
         [(DeleteBlocks, [SqlNum (height (bitcoindBestBlock (self w)))]),
          (DeleteTransactions, [SqlNum (height (bitcoindBestBlock (self w)))]),
          (DeleteHistory, [SqlNum (height (bitcoindBestBlock (self w)))])] (Some TypeError)]) \<and>
   catchUp 1 example_env (world_fork\<lparr>clock := 2\<rparr>) =
     (Some (Inl TypeError), world_fork\<lparr>clock := 3\<rparr>,
      [TipQuery,
       Rollback 1 [(DeleteBlocks, [SqlNum 1]), (DeleteTransactions, [SqlNum 1]),
                   (DeleteHistory, [SqlNum 1])] (Some TypeError)]) \<and>
   store (world_fork\<lparr>clock := 3\<rparr>) =
     \<lparr>t_blocks = [(0, bytea ''a0'', bytea ''h0'', bytea ''t0''),
                  (1, bytea ''b1'', bytea ''h1'', bytea ''aa'')],
      t_transactions = [(bytea ''t0'', bytea ''00'', Some 0), (bytea ''aa'', bytea ''0100'', Some 1)],
      t_transactions_mempool = [],
      t_history = [(example_address, ''t0'', 0, 10, Some 0),
                   (example_address, ''aa'', 0, 5000, Some 1)],
      t_history_mempool = []\<rparr> \<and>
   below_height 1 (store world_fork) =
     \<lparr>t_blocks = [(0, bytea ''a0'', bytea ''h0'', bytea ''t0'')],
      t_transactions = [(bytea ''t0'', bytea ''00'', Some 0)],
      t_transactions_mempool = [],
      t_history = [(example_address, ''t0'', 0, 10, Some 0)],
      t_history_mempool = []\<rparr>"
proof -
  note rollback_first_in_run
  moreover have "below_height 1 (store world_fork) =
     \<lparr>t_blocks = [(0, bytea ''a0'', bytea ''h0'', bytea ''t0'')],
      t_transactions = [(bytea ''t0'', bytea ''00'', Some 0)],
      t_transactions_mempool = [],
      t_history = [(example_address, ''t0'', 0, 10, Some 0)],
      t_history_mempool = []\<rparr>"
    by (simp add: world_fork_def example_db_1_def below_height_def block_row_height_def
          tx_row_height_def history_row_height_def)
  ultimately show ?thesis
    by (simp add: rollbackTo_not_truncated) (simp add: world_fork_def example_db_1_def)
qed

text \<open>
  C9. After a rollback to height \<open>h\<close> that was performed, the same rollback once more
  in the same run is performed again, issues the same queries and leaves the whole
  state, the store with its mempool tables included, as it was; and whatever the flag
  of the run it is called in, a second rollback leaves the store as the first left it.
\<close>

theorem C9_rollback_idempotent:
  assumes "rollbackTo E w flag = (x, w1, flag1, [Rollback h sts None])"
  shows "rollbackTo E w1 flag1 = (x, w1, flag1, [Rollback h sts None]) \<and>
         (\<forall>flag2. store (fst (snd (rollbackTo E w1 flag2))) = store w1)"
proof -
  from rollbackTo_committed(2) [OF assms]
  have r: "rollbackTo E w True = (x, w1, flag1, [Rollback h sts None])" .
  have f1: "flag1 = True" and x: "x = ReorgFound"
    using r unfolding rollbackTo_truncated by auto
  have w1: "w1 = w\<lparr>self := (self w)\<lparr>bestBlock := getBestBlock (genesis E)
                   (below_height (height (bitcoindBestBlock (self w))) (store w))\<rparr>,
        store := below_height (height (bitcoindBestBlock (self w))) (store w)\<rparr>"
    and h: "h = height (bitcoindBestBlock (self w))"
    and sts: "sts = [(DeleteBlocks, [SqlNum h]), (DeleteTransactions, [SqlNum h]),
                     (DeleteHistory, [SqlNum h])]"
    using r unfolding rollbackTo_truncated by auto
  have again: "rollbackTo E w1 True = (x, w1, flag1, [Rollback h sts None])"
    unfolding rollbackTo_truncated
    by (simp add: w1 h sts x f1 below_height_twice)
  have "store (fst (snd (rollbackTo E w1 flag2))) = store w1" for flag2
  proof (cases flag2)
    case True
    with again show ?thesis by simp
  next
    case False
    then show ?thesis by (simp add: rollbackTo_not_truncated)
  qed
  with again f1 show ?thesis by simp
qed

theorem C9_rollback_idempotent_witness:
  "\<exists>w1. rollbackTo example_env world_fork True =
          (ReorgFound, w1, True,
           [Rollback 1 [(DeleteBlocks, [SqlNum 1]), (DeleteTransactions, [SqlNum 1]),
                        (DeleteHistory, [SqlNum 1])] None]) \<and>
        rollbackTo example_env w1 True =
          (ReorgFound, w1, True,
           [Rollback 1 [(DeleteBlocks, [SqlNum 1]), (DeleteTransactions, [SqlNum 1]),
                        (DeleteHistory, [SqlNum 1])] None]) \<and>
        store (fst (snd (rollbackTo example_env w1 False))) = store w1 \<and>
        store w1 =
          \<lparr>t_blocks = [(0, bytea ''a0'', bytea ''h0'', bytea ''t0'')],
           t_transactions = [(bytea ''t0'', bytea ''00'', Some 0)],
           t_transactions_mempool = [],
           t_history = [(example_address, ''t0'', 0, 10, Some 0)],
           t_history_mempool = []\<rparr>"
proof -
  obtain w1 where
    r: "rollbackTo example_env world_fork True =
          (ReorgFound, w1, True,
           [Rollback 1 [(DeleteBlocks, [SqlNum 1]), (DeleteTransactions, [SqlNum 1]),
                        (DeleteHistory, [SqlNum 1])] None])"
    and s: "store w1 =
          \<lparr>t_blocks = [(0, bytea ''a0'', bytea ''h0'', bytea ''t0'')],
           t_transactions = [(bytea ''t0'', bytea ''00'', Some 0)],
           t_transactions_mempool = [],
           t_history = [(example_address, ''t0'', 0, 10, Some 0)],
           t_history_mempool = []\<rparr>"
    unfolding rollbackTo_truncated
    by (simp add: world_fork_def example_db_1_def below_height_def block_row_height_def
          tx_row_height_def history_row_height_def)
  from C9_rollback_idempotent [OF r] r s show ?thesis by blast
qed

subsection \<open>One cycle of catchUp\<close>

lemma checkSync_events:
  "snd (snd (checkSync E w)) =
     (if height (bestBlock (self w)) + 100 < height (bitcoindBestBlock (self w)) then []
      else [TipQuery])"
  by (simp add: checkSync_def split: sum.splits)

lemma checkSync_error:
  "checkSync E w = (Inl e, w1, evs1) \<Longrightarrow> e = SyncComplete \<or> (\<exists>x. e = SourceError x)"
  by (auto simp: checkSync_def split: if_splits sum.splits)

lemma checkSync_store:
  "checkSync E w = (r, w1, evs1) \<Longrightarrow> store w1 = store w \<and> bestBlock (self w1) = bestBlock (self w)"
  by (auto simp: checkSync_def split: if_splits sum.splits)

text \<open>The four ways through a cycle.\<close>

lemma once_cases:
  assumes "once E w flag = (out, w', flag', evs)"
  obtains
    (sync) e where "checkSync E w = (Inl e, w', evs)" and "out = settle (Inl e)" and "flag' = flag"
  | (reorg) w1 evs1 e evs2 where "checkSync E w = (Inr (), w1, evs1)"
      and "height (bitcoindBestBlock (self w1)) \<le> height (bestBlock (self w1))"
      and "rollbackTo E w1 flag = (e, w', flag', evs2)"
      and "out = settle (Inl e)" and "evs = evs1 @ evs2"
  | (fetch) w1 evs1 e where "checkSync E w = (Inr (), w1, evs1)"
      and "\<not> height (bitcoindBestBlock (self w1)) \<le> height (bestBlock (self w1))"
      and "getBlock E (clock w1) (height (bestBlock (self w1)) + 1) = Inl e"
      and "out = Rejected (SourceError e)" and "flag' = flag"
      and "evs = evs1 @ [BlockFetch (height (bestBlock (self w1)) + 1)]"
      and "w' = w1\<lparr>clock := Suc (clock w1)\<rparr>"
  | (import) w1 evs1 b r evs3 where "checkSync E w = (Inr (), w1, evs1)"
      and "\<not> height (bitcoindBestBlock (self w1)) \<le> height (bestBlock (self w1))"
      and "getBlock E (clock w1) (height (bestBlock (self w1)) + 1) = Inr b"
      and "importBlock E (w1\<lparr>clock := Suc (clock w1)\<rparr>) flag b = (r, w', flag', evs3)"
      and "out = settle r"
      and "evs = evs1 @ BlockFetch (height (bestBlock (self w1)) + 1) # evs3"
proof (cases "checkSync E w")
  case (fields r1 w1 evs1)
  show ?thesis
  proof (cases r1)
    case (Inl e)
    with fields assms show ?thesis by (intro sync [of e]) (auto simp: once_def)
  next
    case (Inr u)
    show ?thesis
    proof (cases "height (bitcoindBestBlock (self w1)) \<le> height (bestBlock (self w1))")
      case True
      obtain e w2 f2 evs2 where rb: "rollbackTo E w1 flag = (e, w2, f2, evs2)"
        using prod_cases4 by blast
      with True Inr fields assms show ?thesis
        by (intro reorg [of w1 evs1 e evs2]) (auto simp: once_def reorgOrFetch_def)
    next
      case False
      show ?thesis
      proof (cases "getBlock E (clock w1) (height (bestBlock (self w1)) + 1)")
        case (Inl e)
        with False Inr fields assms show ?thesis
          by (intro fetch [of w1 evs1 e]) (auto simp: once_def reorgOrFetch_def)
      next
        case b: (Inr b)
        obtain r w3 f3 evs3 where
          ib: "importBlock E (w1\<lparr>clock := Suc (clock w1)\<rparr>) flag b = (r, w3, f3, evs3)"
          using prod_cases4 by blast
        with b False Inr fields assms show ?thesis
          by (intro import [of w1 evs1 b r evs3]) (auto simp: once_def reorgOrFetch_def)
      qed
    qed
  qed
qed

text \<open>What an import can fail with, and what it issues.\<close>

lemma mapE_error: "mapE f xs = Inl e \<Longrightarrow> \<exists>x \<in> set xs. f x = Inl e"
  by (induction xs) (auto split: sum.splits)

lemma multisigAddress_error:
  "multisigAddress n s c = Inl e \<Longrightarrow> e = TypeError \<or> e = InvalidArgument"
  by (auto simp: multisigAddress_def chunk_buf_def sha256ripemd160_def
        split: if_splits sum.splits option.splits)

lemma outputAddresses_error:
  "outputAddresses L n s = Inl e \<Longrightarrow> e = TypeError \<or> e = InvalidArgument"
  by (auto simp: outputAddresses_def chunk_buf_def sha256ripemd160_def
        split: if_splits sum.splits option.splits
        dest!: mapE_error dest: multisigAddress_error)

lemma saveOutputsFrom_error:
  "saveOutputsFrom L n qs h txid i outs = (sts, Some e) \<Longrightarrow> e = TypeError \<or> e = InvalidArgument"
proof (induction outs arbitrary: i sts)
  case Nil
  then show ?case by simp
next
  case (Cons out outs)
  show ?case
  proof (cases "saveOutput L n qs h txid i out")
    case (Inl x)
    with Cons.prems have "e = x" by simp
    moreover from Inl have "outputAddresses L n (script out) = Inl x"
      by (auto simp: saveOutput_def split: sum.splits option.splits)
    ultimately show ?thesis using outputAddresses_error by blast
  next
    case (Inr s1)
    with Cons.prems obtain s2 where
      "saveOutputsFrom L n qs h txid (Suc i) outs = (s2, Some e)"
      by (auto split: prod.splits)
    then show ?thesis by (rule Cons.IH)
  qed
qed

lemma storeTransactionsWith_error:
  "storeTransactionsWith L n qs h ts = (sts, Some e) \<Longrightarrow> e = TypeError \<or> e = InvalidArgument"
proof (induction ts arbitrary: sts)
  case Nil
  then show ?case by simp
next
  case (Cons t ts)
  obtain s1 r1 where so: "saveOutputs L n qs h t = (s1, r1)"
    by (cases "saveOutputs L n qs h t")
  show ?case
  proof (cases r1)
    case (Some x)
    with Cons.prems so have "e = x" by simp
    with so Some saveOutputsFrom_error [of L n qs h "tx_id t" 0 "outputs t" s1 x]
    show ?thesis by (simp add: saveOutputs_def)
  next
    case None
    with Cons.prems so obtain s2 where "storeTransactionsWith L n qs h ts = (s2, Some e)"
      by (auto split: prod.splits)
    then show ?thesis by (rule Cons.IH)
  qed
qed

lemma storeTransactions_no_truncate:
  "st \<in> set (fst (storeTransactions L n txs (Some h))) \<Longrightarrow> fst st \<noteq> TruncateMempool"
  using storeTransactionsWith_query [of st L n queries_blockchain "Some h" txs]
  by (auto simp: storeTransactions_def queries_blockchain_def)

text \<open>
  The transaction of an import: it ends without an error and the store holds the rows
  of the block, or it ends with an error and the store is as it was.
\<close>

lemma importBlock_shape:
  assumes "importBlock E w flag b = (r, w', flag', evs)"
  shows "flag' = True \<and>
         (\<exists>sts x. evs = [Import (height (bestBlock (self w)) + 1)
                          ((if flag then [] else [(TruncateMempool, [])]) @
                           (InsertBlocks, blockValues (height (bestBlock (self w)) + 1) b) # sts) x] \<and>
            (\<forall>st \<in> set sts. fst st \<noteq> TruncateMempool) \<and>
            (x = None \<and> r = Inr () \<and>
             store w' = imported (lib E) (net E) (height (bestBlock (self w)) + 1) b flag (store w) \<or>
             (x = Some TypeError \<or> x = Some InvalidArgument \<or> x = Some StorageError) \<and>
             r = Inl (the x) \<and> store w' = store w))"
proof -
  let ?h = "height (bestBlock (self w)) + 1"
  let ?ps = "blockValues ?h b"
  let ?sts = "fst (storeTransactions (lib E) (net E) (transactions b) (Some ?h))"
  obtain steps where iw: "importWork (lib E) (net E) ?h b flag = (steps, True)"
    by (simp add: importWork_steps)
  then have fs: "fst (importWork (lib E) (net E) ?h b flag) = steps"
    by simp
  have st: "steps =
      [(awaited (if flag then [] else [(TruncateMempool, [])]), None),
       (awaited [(InsertBlocks, ?ps)], None),
       storeTransactionsSent (lib E) (net E) (transactions b) (Some ?h)]"
    using iw by (simp add: importWork_steps)
  have q: "queries_of steps = (if flag then [] else [(TruncateMempool, [])]) @ (InsertBlocks, ?ps) # ?sts"
    using importWork_queries [of "lib E" "net E" ?h b flag] fs by simp
  have nt: "\<forall>st \<in> set ?sts. fst st \<noteq> TruncateMempool"
    using storeTransactions_no_truncate by blast
  show ?thesis
  proof (cases "run_work steps (Active (store w))")
    case (Inl e)
    have "e = StorageError \<or> e = TypeError \<or> e = InvalidArgument"
    proof (rule disjE [OF run_work_error [OF Inl]])
      assume "e = StorageError"
      then show ?thesis by simp
    next
      assume "\<exists>sent. (sent, Some e) \<in> set steps"
      then obtain sent where "(sent, Some e) \<in> set steps" ..
      then have
        "storeTransactionsSent (lib E) (net E) (transactions b) (Some ?h) = (sent, Some e)"
        by (auto simp: st)
      then have "storeTransactionsWith (lib E) (net E) queries_blockchain (Some ?h) (transactions b) =
          (map fst sent, Some e)"
        using storeTransactionsSent_queries by (fastforce simp: storeTransactions_def)
      then show ?thesis
        using storeTransactionsWith_error by blast
    qed
    moreover from Inl iw assms
    have "r = Inl e" and "w' = w\<lparr>store := store w\<rparr>" and "flag' = True"
      and "evs = [Import ?h (queries_of steps) (Some e)]"
      by (auto simp: importBlock_def executeTransaction_def Let_def)
    ultimately show ?thesis
      using q nt by auto
  next
    case (Inr s)
    from run_importWork [of "lib E" "net E" ?h b flag "store w" s] Inr fs
    have s: "s = Active (imported (lib E) (net E) ?h b flag (store w))"
      by (simp add: imported_def)
    with Inr iw assms
    have "r = Inr ()" and "store w' = imported (lib E) (net E) ?h b flag (store w)"
      and "flag' = True" and "evs = [Import ?h (queries_of steps) None]"
      by (auto simp: importBlock_def executeTransaction_def Let_def)
    then show ?thesis
      using q nt by auto
  qed
qed

text \<open>
  C5. The import of a block is all or nothing. Either the transaction ends without an
  error and the store holds, beside what it held, the row of the block, the rows of all
  its transactions and the rows of all their outputs' addresses (and empty mempool
  tables, when this import is the first to call \<open>tryTruncateMempool\<close> in the run); or
  it ends with an error and the store is what it was. The error is that of a rejected
  query that the callback waits for, or the exception that \<open>storeTransactions\<close> throws
  at an output (a chunk that is not there, a hash taken of no buffer as at a multisig
  output); the queries issued before it are rolled back with the rest. And whatever
  the queries of a callback and whichever of them it waits for, a transaction leaves
  the store as it was, or as all the queries of the callback, all accepted, made it.
\<close>

theorem C5_import_all_or_nothing:
  assumes "importBlock E w flag b = (r, w', flag', evs)"
  shows "((r = Inr () \<and>
           store w' = (store w)
             \<lparr>t_blocks := t_blocks (store w) @
                [expected_block_row (height (bestBlock (self w)) + 1) b],
              t_transactions := t_transactions (store w) @
                map (expected_tx_row (height (bestBlock (self w)) + 1)) (transactions b),
              t_transactions_mempool := (if flag then t_transactions_mempool (store w) else []),
              t_history := t_history (store w) @
                concat (map (expected_ownership (lib E) (net E) (Some (height (bestBlock (self w)) + 1)))
                         (transactions b)),
              t_history_mempool := (if flag then t_history_mempool (store w) else [])\<rparr>)
        \<or> ((\<exists>e. r = Inl e \<and> (e = StorageError \<or> e = TypeError \<or> e = InvalidArgument)) \<and>
           store w' = store w)) \<and>
         (executeTransaction steps d = (x, d') \<longrightarrow>
            d' = d \<or> x = Inr () \<and> run_stmts (queries_of steps) d = Inr d')"
proof (rule conjI)
  from importBlock_shape [OF assms]
  show "(r = Inr () \<and>
           store w' = (store w)
             \<lparr>t_blocks := t_blocks (store w) @
                [expected_block_row (height (bestBlock (self w)) + 1) b],
              t_transactions := t_transactions (store w) @
                map (expected_tx_row (height (bestBlock (self w)) + 1)) (transactions b),
              t_transactions_mempool := (if flag then t_transactions_mempool (store w) else []),
              t_history := t_history (store w) @
                concat (map (expected_ownership (lib E) (net E) (Some (height (bestBlock (self w)) + 1)))
                         (transactions b)),
              t_history_mempool := (if flag then t_history_mempool (store w) else [])\<rparr>)
        \<or> ((\<exists>e. r = Inl e \<and> (e = StorageError \<or> e = TypeError \<or> e = InvalidArgument)) \<and>
           store w' = store w)"
    by (auto simp: imported_def)
next
  show "executeTransaction steps d = (x, d') \<longrightarrow>
          d' = d \<or> x = Inr () \<and> run_stmts (queries_of steps) d = Inr d'"
    using executeTransaction_atomic by blast
qed

theorem C5_import_all_or_nothing_witness:
  "fst (importBlock example_env example_world False example_block) = Inr () \<and>
   store (fst (snd (importBlock example_env example_world False example_block))) =
     \<lparr>t_blocks = [(0, bytea ''a0'', bytea ''h0'', bytea ''t0''),
                  (1, bytea ''b1'', bytea ''h1'', bytea ''aa'')],
      t_transactions = [(bytea ''t0'', bytea ''00'', Some 0), (bytea ''aa'', bytea ''0100'', Some 1)],
      t_transactions_mempool = [],
      t_history = [(example_address, ''t0'', 0, 10, Some 0),
                   (example_address, ''aa'', 0, 5000, Some 1)],
      t_history_mempool = []\<rparr> \<and>
   fst (importBlock example_env world_behind False example_block) = Inl StorageError \<and>
   store (fst (snd (importBlock example_env world_behind False example_block))) = example_db \<and>
   fst (importBlock example_env example_world False multisig_block) = Inl InvalidArgument \<and>
   store (fst (snd (importBlock example_env example_world False multisig_block))) = example_db \<and>
   executeTransaction
     [(awaited [(InsertTransactions, [SqlText (bytea ''cc''), SqlText (bytea ''0200''), SqlNum 1])] @
       detached [(InsertHistoryHeight, [SqlText ''cc'', SqlNum 0, SqlNum 100, SqlNum 1])], None)]
     example_db = (Inr (), example_db)"
proof -
  obtain r1 w1 f1 evs1 where
    i1: "importBlock example_env example_world False example_block = (r1, w1, f1, evs1)"
    using prod_cases4 by blast
  obtain r2 w2 f2 evs2 where
    i2: "importBlock example_env world_behind False example_block = (r2, w2, f2, evs2)"
    using prod_cases4 by blast
  obtain r3 w3 f3 evs3 where
    i3: "importBlock example_env example_world False multisig_block = (r3, w3, f3, evs3)"
    using prod_cases4 by blast
  let ?steps = "[(awaited [(InsertTransactions,
                     [SqlText (bytea ''cc''), SqlText (bytea ''0200''), SqlNum 1])] @
                  detached [(InsertHistoryHeight,
                     [SqlText ''cc'', SqlNum 0, SqlNum 100, SqlNum 1])], None)]"
  obtain x4 d4 where e4: "executeTransaction ?steps example_db = (x4, d4)"
    by (cases "executeTransaction ?steps example_db")
  have r1: "r1 = Inr ()"
    using i1 by (simp add: cycle_defs store_defs example_defs)
  have r2: "r2 = Inl StorageError"
    using i2 by (simp add: cycle_defs store_defs example_defs)
  have r3: "r3 = Inl InvalidArgument"
    using i3 by (simp add: cycle_defs store_defs example_defs)
  have x4: "x4 = Inr ()"
    using e4 by (simp add: executeTransaction_def awaited_def detached_def exec_in_def)
  have q4: "run_stmts (queries_of ?steps) example_db = Inl StorageError"
    by (simp add: queries_of_def awaited_def detached_def)
  have e1: "expected_ownership example_bitcore ''livenet'' (Some 1) example_tx =
      [(example_address, ''aa'', 0, 5000, Some 1)]"
    by (simp add: expected_ownership_def outputAddresses_def isMultisigOut_def chunk_buf_def
          example_defs)
  from C5_import_all_or_nothing [OF i1, THEN conjunct1] r1 e1
  have "store w1 =
     \<lparr>t_blocks = [(0, bytea ''a0'', bytea ''h0'', bytea ''t0''),
                  (1, bytea ''b1'', bytea ''h1'', bytea ''aa'')],
      t_transactions = [(bytea ''t0'', bytea ''00'', Some 0), (bytea ''aa'', bytea ''0100'', Some 1)],
      t_transactions_mempool = [],
      t_history = [(example_address, ''t0'', 0, 10, Some 0),
                   (example_address, ''aa'', 0, 5000, Some 1)],
      t_history_mempool = []\<rparr>"
    by (simp add: expected_block_row_def expected_tx_row_def example_env_def example_world_def
          example_block_def example_tx_def example_db_def)
  moreover from C5_import_all_or_nothing [OF i2, THEN conjunct1] r2 have "store w2 = example_db"
    by (simp add: world_behind_def)
  moreover from C5_import_all_or_nothing [OF i3, THEN conjunct1] r3 have "store w3 = example_db"
    by (simp add: example_world_def)
  moreover from C5_import_all_or_nothing [OF i1, THEN conjunct2, of ?steps example_db x4 d4] e4 q4
  have "d4 = example_db"
    by simp
  ultimately show ?thesis using i1 i2 i3 r1 r2 r3 e4 x4 by simp
qed

lemma rollbackTo_events:
  "rollbackTo E w flag = (e, w', flag', evs) \<Longrightarrow>
     \<exists>r. evs = [Rollback (height (bitcoindBestBlock (self w)))
                  [(DeleteBlocks, [SqlNum (height (bitcoindBestBlock (self w)))]),
                   (DeleteTransactions, [SqlNum (height (bitcoindBestBlock (self w)))]),
                   (DeleteHistory, [SqlNum (height (bitcoindBestBlock (self w)))])] r]"
  by (cases flag) (auto simp: rollbackTo_truncated rollbackTo_not_truncated)

text \<open>
  C8 (amended). A cycle queries the remote tip exactly when
  \<open>local.height + 100 < remote.height\<close> is false, that is when the gap is 100 or less:
  with the remembered remote tip at height 250 it queries exactly from the local height
  150 on, and below that it goes on, without a query, to fetch the block after the
  local tip.
\<close>

theorem C8_requery_when_gap_at_most_100:
  assumes "once E w flag = (out, w', flag', evs)"
  shows "(TipQuery \<in> set evs) =
           (\<not> height (bestBlock (self w)) + 100 < height (bitcoindBestBlock (self w))) \<and>
         (height (bitcoindBestBlock (self w)) = 250 \<longrightarrow>
            (TipQuery \<in> set evs) = (150 \<le> height (bestBlock (self w)))) \<and>
         (height (bestBlock (self w)) + 100 < height (bitcoindBestBlock (self w)) \<longrightarrow>
            (\<exists>rest. evs = BlockFetch (height (bestBlock (self w)) + 1) # rest))"
proof -
  let ?far = "height (bestBlock (self w)) + 100 < height (bitcoindBestBlock (self w))"
  let ?goal = "(TipQuery \<in> set evs) = (\<not> ?far) \<and>
      (?far \<longrightarrow> (\<exists>rest. evs = BlockFetch (height (bestBlock (self w)) + 1) # rest))"
  from assms have qf: ?goal
  proof (cases rule: once_cases)
    case (sync e)
    then have evs: "evs = (if ?far then [] else [TipQuery])"
      using checkSync_events [of E w] by simp
    from sync have "\<not> ?far"
      by (auto simp: checkSync_def split: if_splits)
    with evs show ?goal
      by auto
  next
    case (reorg w1 evs1 e evs2)
    then have evs1: "evs1 = (if ?far then [] else [TipQuery])"
      using checkSync_events [of E w] by simp
    from reorg(3) obtain r h sts where "evs2 = [Rollback h sts r]"
      using rollbackTo_events by blast
    moreover from reorg(1,2) have "\<not> ?far"
      by (auto simp: checkSync_def split: if_splits sum.splits)
    ultimately show ?goal
      using reorg(5) evs1 by auto
  next
    case (fetch w1 evs1 e)
    then have evs1: "evs1 = (if ?far then [] else [TipQuery])"
      using checkSync_events [of E w] by simp
    from fetch(1) have "bestBlock (self w1) = bestBlock (self w)"
      using checkSync_store by blast
    with fetch(6) evs1 show ?goal
      by auto
  next
    case (import w1 evs1 b r evs3)
    then have evs1: "evs1 = (if ?far then [] else [TipQuery])"
      using checkSync_events [of E w] by simp
    from import(1) have "bestBlock (self w1) = bestBlock (self w)"
      using checkSync_store by blast
    moreover from import(4) obtain h sts x where "evs3 = [Import h sts x]"
      using importBlock_shape by blast
    ultimately show ?goal
      using import(6) evs1 by auto
  qed
  then have "height (bitcoindBestBlock (self w)) = 250 \<longrightarrow>
      (TipQuery \<in> set evs) = (150 \<le> height (bestBlock (self w)))"
    by auto
  with qf show ?thesis by blast
qed

theorem C8_requery_when_gap_at_most_100_witness:
  "(\<exists>out w' flag' evs. once env_250 (world_250 149) False = (out, w', flag', evs) \<and>
      TipQuery \<notin> set evs \<and> (\<exists>rest. evs = BlockFetch 150 # rest)) \<and>
   (\<exists>out w' flag' evs. once env_250 (world_250 150) False = (out, w', flag', evs) \<and>
      TipQuery \<in> set evs)"
proof -
  obtain out1 w1 f1 evs1 where
    o1: "once env_250 (world_250 149) False = (out1, w1, f1, evs1)"
    using prod_cases4 by blast
  obtain out2 w2 f2 evs2 where
    o2: "once env_250 (world_250 150) False = (out2, w2, f2, evs2)"
    using prod_cases4 by blast
  from C8_requery_when_gap_at_most_100 [OF o1]
  have "TipQuery \<notin> set evs1 \<and> (\<exists>rest. evs1 = BlockFetch 150 # rest)"
    by (simp add: world_250_def)
  moreover from C8_requery_when_gap_at_most_100 [OF o2]
  have "TipQuery \<in> set evs2"
    by (simp add: world_250_def)
  ultimately show ?thesis using o1 o2 by blast
qed

text \<open>
  C8, as stated, fails: with the local tip at height 150 and the remembered remote tip
  at height 250 the gap is 100, which is not below 100, and the cycle queries the remote
  tip all the same.
\<close>

theorem C8_requery_at_gap_100:
  "height (bitcoindBestBlock (self (world_250 150))) - height (bestBlock (self (world_250 150))) = 100 \<and>
   \<not> height (bitcoindBestBlock (self (world_250 150))) - height (bestBlock (self (world_250 150))) < 100 \<and>
   TipQuery \<in> set (snd (snd (snd (once env_250 (world_250 150) False))))"
  by (simp add: cycle_defs store_defs example_defs)

subsection \<open>The cycles of a catchUp call\<close>

lemma truncations_append: "truncations (xs @ ys) = truncations xs + truncations ys"
  by (simp add: truncations_def)

lemma truncations_quiet: "\<forall>ev \<in> set evs. \<not> is_transaction ev \<Longrightarrow> truncations evs = 0"
proof (induction evs)
  case Nil
  then show ?case by (simp add: truncations_def)
next
  case (Cons ev evs)
  then have "stmts_of ev = []" by (cases ev) auto
  with Cons show ?case by (simp add: truncations_def)
qed

lemma checkSync_quiet: "checkSync E w = (r, w1, evs1) \<Longrightarrow> \<forall>ev \<in> set evs1. \<not> is_transaction ev"
  using checkSync_events [of E w] by (auto split: if_splits)

text \<open>A cycle once \<open>tryTruncateMempool\<close> has run in this call.\<close>

lemma once_truncated:
  assumes "once E w True = (out, w', flag', evs)"
  shows "flag' = True \<and> truncations evs = 0 \<and>
         (\<forall>h sts x. Rollback h sts x \<in> set evs \<longrightarrow>
            x = None \<and>
            sts = [(DeleteBlocks, [SqlNum h]), (DeleteTransactions, [SqlNum h]),
                   (DeleteHistory, [SqlNum h])])"
  using assms
proof (cases rule: once_cases)
  case (sync e)
  then have q: "\<forall>ev \<in> set evs. \<not> is_transaction ev"
    using checkSync_quiet by blast
  then have "truncations evs = 0" by (rule truncations_quiet)
  moreover from q have "\<And>h sts x. Rollback h sts x \<notin> set evs" by fastforce
  ultimately show ?thesis using sync by simp
next
  case (reorg w1 evs1 e evs2)
  then have q: "\<forall>ev \<in> set evs1. \<not> is_transaction ev"
    using checkSync_quiet by blast
  then have t1: "truncations evs1 = 0" by (rule truncations_quiet)
  from q have r1: "\<And>h sts x. Rollback h sts x \<notin> set evs1" by fastforce
  from reorg(3) have "flag' = True" and
    "evs2 = [Rollback (height (bitcoindBestBlock (self w1)))
         [(DeleteBlocks, [SqlNum (height (bitcoindBestBlock (self w1)))]),
          (DeleteTransactions, [SqlNum (height (bitcoindBestBlock (self w1)))]),
          (DeleteHistory, [SqlNum (height (bitcoindBestBlock (self w1)))])] None]"
    unfolding rollbackTo_truncated by auto
  with t1 r1 reorg(5) show ?thesis
    by (auto simp: truncations_append) (simp add: truncations_def)
next
  case (fetch w1 evs1 e)
  then have q: "\<forall>ev \<in> set evs. \<not> is_transaction ev"
    using checkSync_quiet by fastforce
  then have "truncations evs = 0" by (rule truncations_quiet)
  moreover from q have "\<And>h sts x. Rollback h sts x \<notin> set evs" by fastforce
  ultimately show ?thesis using fetch by simp
next
  case (import w1 evs1 b r evs3)
  then have q: "\<forall>ev \<in> set evs1. \<not> is_transaction ev"
    using checkSync_quiet by blast
  then have t1: "truncations evs1 = 0" by (rule truncations_quiet)
  from q have r1: "\<And>h sts x. Rollback h sts x \<notin> set evs1" by fastforce
  from importBlock_shape [OF import(4)] obtain h ps sts x where
    f: "flag' = True" and evs3: "evs3 = [Import h ((InsertBlocks, ps) # sts) x]" and
    nt: "\<forall>st \<in> set sts. fst st \<noteq> TruncateMempool"
    by auto
  from nt have "filter (\<lambda>st. fst st = TruncateMempool) sts = []"
    by (simp add: filter_empty_conv)
  then have "truncations evs3 = 0"
    by (simp add: evs3 truncations_def)
  with t1 r1 f evs3 import(6) show ?thesis
    by (auto simp: truncations_append) (simp add: truncations_def)
qed

lemma catchUpFrom_truncated:
  "catchUpFrom n E w True = (r, w', evs) \<Longrightarrow>
     truncations evs = 0 \<and>
     (\<forall>h sts x. Rollback h sts x \<in> set evs \<longrightarrow>
        x = None \<and>
        sts = [(DeleteBlocks, [SqlNum h]), (DeleteTransactions, [SqlNum h]),
               (DeleteHistory, [SqlNum h])])"
proof (induction n arbitrary: w r w' evs)
  case 0
  then show ?case by (simp add: truncations_def)
next
  case (Suc n)
  obtain out w1 f1 evs1 where o: "once E w True = (out, w1, f1, evs1)"
    using prod_cases4 by blast
  note o1 = once_truncated [OF o]
  show ?case
  proof (cases out)
    case Again
    obtain r2 w2 evs2 where c: "catchUpFrom n E w1 True = (r2, w2, evs2)"
      using prod_cases3 by blast
    from Suc.prems o Again c o1 have "evs = evs1 @ evs2" by simp
    with Suc.IH [OF c] o1 show ?thesis
      by (auto simp: truncations_append)
  next
    case Resolved
    with Suc.prems o have "evs = evs1" by simp
    with o1 show ?thesis by simp
  next
    case (Rejected e)
    with Suc.prems o have "evs = evs1" by simp
    with o1 show ?thesis by simp
  qed
qed

text \<open>The first cycle of a call, or any cycle before \<open>tryTruncateMempool\<close> has run.\<close>

lemma once_fresh:
  assumes "once E w False = (out, w', flag', evs)"
  shows "(out = Again \<and> flag' = True \<and>
          (\<exists>pre h ps sts.
             evs = pre @ [Import h ((TruncateMempool, []) # (InsertBlocks, ps) # sts) None] \<and>
             (\<forall>ev \<in> set pre. \<not> is_transaction ev) \<and>
             (\<forall>st \<in> set sts. fst st \<noteq> TruncateMempool)))
       \<or> (out \<noteq> Again \<and> (\<forall>h sts. Import h sts None \<notin> set evs))"
  using assms
proof (cases rule: once_cases)
  case (sync e)
  then have q: "\<forall>ev \<in> set evs. \<not> is_transaction ev"
    using checkSync_quiet by blast
  then have "\<And>h sts. Import h sts None \<notin> set evs" by fastforce
  moreover from sync have "out \<noteq> Again"
    using checkSync_error by fastforce
  ultimately show ?thesis by simp
next
  case (reorg w1 evs1 e evs2)
  then have q: "\<forall>ev \<in> set evs1. \<not> is_transaction ev"
    using checkSync_quiet by blast
  then have n1: "\<And>h sts. Import h sts None \<notin> set evs1" by fastforce
  from reorg(3) have "e = TypeError" and "\<exists>h sts x. evs2 = [Rollback h sts x]"
    unfolding rollbackTo_not_truncated by auto
  with n1 reorg(4,5) show ?thesis by auto
next
  case (fetch w1 evs1 e)
  then have q: "\<forall>ev \<in> set evs. \<not> is_transaction ev"
    using checkSync_quiet by fastforce
  then have "\<And>h sts. Import h sts None \<notin> set evs" by fastforce
  with fetch(4) show ?thesis by simp
next
  case (import w1 evs1 b r evs3)
  then have q: "\<forall>ev \<in> set evs1. \<not> is_transaction ev"
    using checkSync_quiet by blast
  then have n1: "\<And>h sts. Import h sts None \<notin> set evs1" by fastforce
  from importBlock_shape [OF import(4)] obtain h ps sts x where
    f: "flag' = True" and
    evs3: "evs3 = [Import h ((TruncateMempool, []) # (InsertBlocks, ps) # sts) x]" and
    nt: "\<forall>st \<in> set sts. fst st \<noteq> TruncateMempool" and
    x: "x = None \<and> r = Inr () \<or>
        (x = Some TypeError \<or> x = Some InvalidArgument \<or> x = Some StorageError) \<and> r = Inl (the x)"
    by auto
  show ?thesis
  proof (cases x)
    case None
    with x have "r = Inr ()" by auto
    with import(5) have "out = Again" by simp
    moreover have "evs = (evs1 @ [BlockFetch (height (bestBlock (self w1)) + 1)]) @
        [Import h ((TruncateMempool, []) # (InsertBlocks, ps) # sts) None]"
      using import(6) evs3 None by simp
    moreover have "\<forall>ev \<in> set (evs1 @ [BlockFetch (height (bestBlock (self w1)) + 1)]).
        \<not> is_transaction ev"
      using q by simp
    ultimately show ?thesis using f nt by blast
  next
    case (Some e)
    with x have "r = Inl TypeError \<or> r = Inl InvalidArgument \<or> r = Inl StorageError" by auto
    with import(5) have "out \<noteq> Again" by auto
    moreover have "\<And>h sts. Import h sts None \<notin> set evs"
      using import(6) evs3 Some n1 by auto
    ultimately show ?thesis by simp
  qed
qed

text \<open>
  A call of \<open>catchUp\<close> in which a block is imported: up to the first import there is no
  storage transaction, that import truncates first and inserts the row of the block
  next, and after it nothing truncates and every rollback commits with its three deletes.
\<close>

lemma catchUp_after_first_import:
  assumes "catchUp n E w = (r, w', evs)" and "Import h0 sts0 None \<in> set evs"
  shows "\<exists>pre h ps sts post.
           evs = pre @ Import h ((TruncateMempool, []) # (InsertBlocks, ps) # sts) None # post \<and>
           (\<forall>ev \<in> set pre. \<not> is_transaction ev) \<and>
           (\<forall>st \<in> set sts. fst st \<noteq> TruncateMempool) \<and>
           truncations post = 0 \<and>
           (\<forall>h' sts' x. Rollback h' sts' x \<in> set post \<longrightarrow>
              x = None \<and>
              sts' = [(DeleteBlocks, [SqlNum h']), (DeleteTransactions, [SqlNum h']),
                      (DeleteHistory, [SqlNum h'])])"
proof (cases n)
  case 0
  with assms show ?thesis by (simp add: catchUp_def)
next
  case (Suc m)
  obtain out w1 f1 evs1 where o: "once E w False = (out, w1, f1, evs1)"
    using prod_cases4 by blast
  show ?thesis
  proof (cases "out = Again")
    case False
    with o assms Suc have "evs = evs1"
      by (cases out) (auto simp: catchUp_def)
    with once_fresh [OF o] False assms(2) show ?thesis by blast
  next
    case True
    with once_fresh [OF o] obtain pre h ps sts where
      f1: "f1 = True" and
      evs1: "evs1 = pre @ [Import h ((TruncateMempool, []) # (InsertBlocks, ps) # sts) None]" and
      pre: "\<forall>ev \<in> set pre. \<not> is_transaction ev" and
      sts: "\<forall>st \<in> set sts. fst st \<noteq> TruncateMempool"
      by auto
    obtain r2 w2 evs2 where c: "catchUpFrom m E w1 True = (r2, w2, evs2)"
      using prod_cases3 by blast
    from assms(1) Suc o True f1 c have "evs = evs1 @ evs2"
      by (simp add: catchUp_def)
    then have "evs = pre @ Import h ((TruncateMempool, []) # (InsertBlocks, ps) # sts) None # evs2"
      using evs1 by simp
    with catchUpFrom_truncated [OF c] pre sts show ?thesis by blast
  qed
qed

text \<open>The mempool tables along the cycles of a call.\<close>

lemma importBlock_mempool:
  assumes "importBlock E w flag b = (r, w', flag', evs)"
  shows "t_transactions_mempool (store w') =
           (if flag \<or> r \<noteq> Inr () then t_transactions_mempool (store w) else []) \<and>
         t_history_mempool (store w') =
           (if flag \<or> r \<noteq> Inr () then t_history_mempool (store w) else [])"
  using importBlock_shape [OF assms] by (auto simp: imported_def)

lemma once_truncated_mempool:
  assumes "once E w True = (out, w', flag', evs)"
  shows "t_transactions_mempool (store w') = t_transactions_mempool (store w) \<and>
         t_history_mempool (store w') = t_history_mempool (store w)"
  using assms
proof (cases rule: once_cases)
  case (sync e)
  then show ?thesis using checkSync_store by metis
next
  case (reorg w1 evs1 e evs2)
  from reorg(1) have "store w1 = store w" using checkSync_store by blast
  moreover from reorg(3) have
    "store w' = below_height (height (bitcoindBestBlock (self w1))) (store w1)"
    unfolding rollbackTo_truncated by auto
  ultimately show ?thesis by (simp add: below_height_mempool)
next
  case (fetch w1 evs1 e)
  from fetch(1) have "store w1 = store w" using checkSync_store by blast
  with fetch(7) show ?thesis by simp
next
  case (import w1 evs1 b r evs3)
  from import(1) have "store w1 = store w" using checkSync_store by blast
  with importBlock_mempool [OF import(4)] show ?thesis by simp
qed

lemma catchUpFrom_truncated_mempool:
  "catchUpFrom n E w True = (r, w', evs) \<Longrightarrow>
     t_transactions_mempool (store w') = t_transactions_mempool (store w) \<and>
     t_history_mempool (store w') = t_history_mempool (store w)"
proof (induction n arbitrary: w r w' evs)
  case 0
  then show ?case by simp
next
  case (Suc n)
  obtain out w1 f1 evs1 where o: "once E w True = (out, w1, f1, evs1)"
    using prod_cases4 by blast
  note m1 = once_truncated_mempool [OF o]
  from once_truncated [OF o] have f1: "f1 = True" by simp
  show ?case
  proof (cases out)
    case Again
    obtain r2 w2 evs2 where c: "catchUpFrom n E w1 True = (r2, w2, evs2)"
      using prod_cases3 by blast
    from Suc.prems o Again c f1 have "w' = w2" by simp
    with Suc.IH [OF c] m1 show ?thesis by simp
  next
    case Resolved
    with Suc.prems o have "w' = w1" by simp
    with m1 show ?thesis by simp
  next
    case (Rejected e)
    with Suc.prems o have "w' = w1" by simp
    with m1 show ?thesis by simp
  qed
qed

lemma once_fresh_mempool:
  assumes "once E w False = (Again, w', flag', evs)"
  shows "t_transactions_mempool (store w') = [] \<and> t_history_mempool (store w') = []"
  using assms
proof (cases rule: once_cases)
  case (sync e)
  then show ?thesis using checkSync_error by fastforce
next
  case (reorg w1 evs1 e evs2)
  from reorg(3) have "e = TypeError"
    unfolding rollbackTo_not_truncated by auto
  with reorg(4) show ?thesis by simp
next
  case (fetch w1 evs1 e)
  then show ?thesis by simp
next
  case (import w1 evs1 b r evs3)
  from importBlock_shape [OF import(4)]
  have "r = Inr () \<or> r = Inl TypeError \<or> r = Inl InvalidArgument \<or> r = Inl StorageError" by auto
  with import(5) have "r = Inr ()" by auto
  with importBlock_mempool [OF import(4)] show ?thesis by simp
qed

lemma catchUp_mempool_after_import:
  assumes "catchUp n E w = (r, w', evs)" and "Import h0 sts0 None \<in> set evs"
  shows "t_transactions_mempool (store w') = [] \<and> t_history_mempool (store w') = []"
proof (cases n)
  case 0
  with assms show ?thesis by (simp add: catchUp_def)
next
  case (Suc m)
  obtain out w1 f1 evs1 where o: "once E w False = (out, w1, f1, evs1)"
    using prod_cases4 by blast
  show ?thesis
  proof (cases "out = Again")
    case False
    with o assms Suc have "evs = evs1"
      by (cases out) (auto simp: catchUp_def)
    with once_fresh [OF o] False assms(2) show ?thesis by blast
  next
    case True
    with once_fresh [OF o] have f1: "f1 = True" by auto
    obtain r2 w2 evs2 where c: "catchUpFrom m E w1 True = (r2, w2, evs2)"
      using prod_cases3 by blast
    from assms(1) Suc o True f1 c have "w' = w2"
      by (simp add: catchUp_def)
    with catchUpFrom_truncated_mempool [OF c] once_fresh_mempool [of E w w1 f1 evs1] o True
    show ?thesis by simp
  qed
qed

lemma example_run:
  "snd (snd (catchUp 2 example_env example_world)) =
     [TipQuery, BlockFetch 1, Import 1 example_import None, TipQuery,
      Rollback 1 [(DeleteBlocks, [SqlNum 1]), (DeleteTransactions, [SqlNum 1]),
                  (DeleteHistory, [SqlNum 1])] None]"
  by (simp add: catchUp_def numeral_2_eq_2 cycle_defs store_defs example_defs)

text \<open>
  The first cycle of a call goes on to a second only by the import of a block: its
  transaction, the first of the call, truncates, inserts the row of the block next,
  and commits.
\<close>

lemma once_fresh_import:
  assumes "once E w False = (Again, w', flag', evs)"
  shows "flag' = True \<and>
         (\<exists>pre b sts.
            evs = pre @ [Import (height (bestBlock (self w)) + 1)
                           ((TruncateMempool, []) #
                            (InsertBlocks, blockValues (height (bestBlock (self w)) + 1) b) # sts)
                           None] \<and>
            (\<forall>ev \<in> set pre. \<not> is_transaction ev) \<and>
            (\<forall>st \<in> set sts. fst st \<noteq> TruncateMempool) \<and>
            store w' = imported (lib E) (net E) (height (bestBlock (self w)) + 1) b False (store w))"
  using assms
proof (cases rule: once_cases)
  case (sync e)
  then show ?thesis using checkSync_error by fastforce
next
  case (reorg w1 evs1 e evs2)
  from reorg(3) have "e = TypeError"
    unfolding rollbackTo_not_truncated by auto
  with reorg(4) show ?thesis by simp
next
  case (fetch w1 evs1 e)
  then show ?thesis by simp
next
  case (import w1 evs1 b r evs3)
  from import(1) have s1: "store w1 = store w" and b1: "bestBlock (self w1) = bestBlock (self w)"
    using checkSync_store by blast+
  from import(1) have q: "\<forall>ev \<in> set evs1. \<not> is_transaction ev"
    using checkSync_quiet by blast
  let ?h = "height (bestBlock (self w)) + 1"
  from importBlock_shape [OF import(4)] s1 b1 obtain sts x where
    f: "flag' = True" and
    evs3: "evs3 = [Import ?h ((TruncateMempool, []) # (InsertBlocks, blockValues ?h b) # sts) x]" and
    nt: "\<forall>st \<in> set sts. fst st \<noteq> TruncateMempool" and
    x: "x = None \<and> r = Inr () \<and> store w' = imported (lib E) (net E) ?h b False (store w) \<or>
        (x = Some TypeError \<or> x = Some InvalidArgument \<or> x = Some StorageError) \<and> r = Inl (the x)"
    by auto
  from x import(5) have x': "x = None" and st: "store w' = imported (lib E) (net E) ?h b False (store w)"
    by auto
  have "evs = (evs1 @ [BlockFetch ?h]) @
      [Import ?h ((TruncateMempool, []) # (InsertBlocks, blockValues ?h b) # sts) None]"
    using import(6) evs3 x' b1 by simp
  moreover have "\<forall>ev \<in> set (evs1 @ [BlockFetch ?h]). \<not> is_transaction ev"
    using q by simp
  ultimately show ?thesis using f nt st by blast
qed

text \<open>
  C6. A call of \<open>catchUp\<close> that imports a block imports it in its first cycle. The
  transaction of that import is the first storage transaction of the call; its first
  query is the one \<^verbatim>\<open>TRUNCATE\<close> of the whole call and the insert of the row of the block
  comes right after it; it commits, and the store after the cycle is the store before
  it with empty mempool tables and the rows of the block. The rest of the call, which
  runs with the flag set, issues no \<^verbatim>\<open>TRUNCATE\<close> and leaves the mempool tables as that
  import left them: they are empty at the end of the call.
\<close>

theorem C6_truncate_once_in_first_import:
  assumes "catchUp n E w = (r, w', evs)" and "Import h0 sts0 None \<in> set evs"
  shows "truncations evs = 1 \<and>
         (\<exists>m w1 pre b sts post.
            n = Suc m \<and>
            once E w False =
              (Again, w1, True,
               pre @ [Import (height (bestBlock (self w)) + 1)
                        ((TruncateMempool, []) #
                         (InsertBlocks, blockValues (height (bestBlock (self w)) + 1) b) # sts)
                        None]) \<and>
            (\<forall>ev \<in> set pre. \<not> is_transaction ev) \<and>
            (\<forall>st \<in> set sts. fst st \<noteq> TruncateMempool) \<and>
            store w1 = imported (lib E) (net E) (height (bestBlock (self w)) + 1) b False (store w) \<and>
            catchUpFrom m E w1 True = (r, w', post) \<and>
            evs = pre @ Import (height (bestBlock (self w)) + 1)
                          ((TruncateMempool, []) #
                           (InsertBlocks, blockValues (height (bestBlock (self w)) + 1) b) # sts)
                          None # post \<and>
            truncations post = 0 \<and>
            t_transactions_mempool (store w') = t_transactions_mempool (store w1) \<and>
            t_history_mempool (store w') = t_history_mempool (store w1)) \<and>
         t_transactions_mempool (store w') = [] \<and> t_history_mempool (store w') = []"
proof (cases n)
  case 0
  with assms show ?thesis by (simp add: catchUp_def)
next
  case (Suc m)
  let ?h = "height (bestBlock (self w)) + 1"
  obtain out w1 f1 evs1 where o: "once E w False = (out, w1, f1, evs1)"
    using prod_cases4 by blast
  have again: "out = Again"
  proof (rule ccontr)
    assume na: "out \<noteq> Again"
    with o assms(1) Suc have "evs = evs1"
      by (cases out) (auto simp: catchUp_def)
    with once_fresh [OF o] na assms(2) show False by blast
  qed
  from once_fresh_import [of E w w1 f1 evs1] o again obtain pre b sts where
    f1: "f1 = True" and
    evs1: "evs1 = pre @ [Import ?h ((TruncateMempool, []) # (InsertBlocks, blockValues ?h b) # sts) None]" and
    pre: "\<forall>ev \<in> set pre. \<not> is_transaction ev" and
    sts: "\<forall>st \<in> set sts. fst st \<noteq> TruncateMempool" and
    st: "store w1 = imported (lib E) (net E) ?h b False (store w)"
    by auto
  obtain r2 w2 post where c: "catchUpFrom m E w1 True = (r2, w2, post)"
    using prod_cases3 by blast
  from assms(1) Suc o again f1 c have res: "r2 = r" "w2 = w'" "evs = evs1 @ post"
    by (simp_all add: catchUp_def)
  from catchUpFrom_truncated [OF c] have post: "truncations post = 0"
    by simp
  from catchUpFrom_truncated_mempool [OF c] res have
    keep: "t_transactions_mempool (store w') = t_transactions_mempool (store w1) \<and>
           t_history_mempool (store w') = t_history_mempool (store w1)"
    by simp
  from sts have "filter (\<lambda>st. fst st = TruncateMempool) sts = []"
    by (simp add: filter_empty_conv)
  then have "truncations [Import ?h ((TruncateMempool, []) # (InsertBlocks, blockValues ?h b) # sts) None] = 1"
    by (simp add: truncations_def)
  then have one: "truncations evs = 1"
    using truncations_quiet [OF pre] post res(3) evs1 by (simp only: truncations_append)
  have evs: "evs = pre @ Import ?h ((TruncateMempool, []) # (InsertBlocks, blockValues ?h b) # sts) None # post"
    using res(3) evs1 by simp
  have o': "once E w False =
      (Again, w1, True,
       pre @ [Import ?h ((TruncateMempool, []) # (InsertBlocks, blockValues ?h b) # sts) None])"
    using o again f1 evs1 by simp
  have c': "catchUpFrom m E w1 True = (r, w', post)"
    using c res by simp
  have empty: "t_transactions_mempool (store w') = [] \<and> t_history_mempool (store w') = []"
    using keep st by (simp add: imported_def)
  have "\<exists>m w1 pre b sts post.
            n = Suc m \<and>
            once E w False =
              (Again, w1, True,
               pre @ [Import ?h ((TruncateMempool, []) # (InsertBlocks, blockValues ?h b) # sts) None]) \<and>
            (\<forall>ev \<in> set pre. \<not> is_transaction ev) \<and>
            (\<forall>st \<in> set sts. fst st \<noteq> TruncateMempool) \<and>
            store w1 = imported (lib E) (net E) ?h b False (store w) \<and>
            catchUpFrom m E w1 True = (r, w', post) \<and>
            evs = pre @ Import ?h ((TruncateMempool, []) # (InsertBlocks, blockValues ?h b) # sts)
                          None # post \<and>
            truncations post = 0 \<and>
            t_transactions_mempool (store w') = t_transactions_mempool (store w1) \<and>
            t_history_mempool (store w') = t_history_mempool (store w1)"
    using Suc o' pre sts st c' evs post keep by blast
  with one empty show ?thesis by blast
qed

theorem C6_truncate_once_in_first_import_witness:
  "(t_transactions_mempool (store example_world) = [(bytea ''m1'', bytea ''01'')] \<and>
    t_history_mempool (store example_world) = [(example_address, ''m1'', 0, 20)]) \<and>
   once example_env example_world False =
     (Again,
      \<lparr>self = \<lparr>bestBlock = \<lparr>height = 1, blockid = ''b1''\<rparr>,
               bitcoindBestBlock = \<lparr>height = 1, blockid = ''b1''\<rparr>\<rparr>,
       store =
         \<lparr>t_blocks = [(0, bytea ''a0'', bytea ''h0'', bytea ''t0''),
                      (1, bytea ''b1'', bytea ''h1'', bytea ''aa'')],
          t_transactions = [(bytea ''t0'', bytea ''00'', Some 0),
                            (bytea ''aa'', bytea ''0100'', Some 1)],
          t_transactions_mempool = [],
          t_history = [(example_address, ''t0'', 0, 10, Some 0),
                       (example_address, ''aa'', 0, 5000, Some 1)],
          t_history_mempool = []\<rparr>,
       clock = 2\<rparr>,
      True,
      [TipQuery, BlockFetch 1, Import 1 example_import None]) \<and>
   catchUp 2 example_env example_world =
     (None,
      \<lparr>self = \<lparr>bestBlock = \<lparr>height = 0, blockid = ''a0''\<rparr>,
               bitcoindBestBlock = \<lparr>height = 1, blockid = ''c1''\<rparr>\<rparr>,
       store =
         \<lparr>t_blocks = [(0, bytea ''a0'', bytea ''h0'', bytea ''t0'')],
          t_transactions = [(bytea ''t0'', bytea ''00'', Some 0)],
          t_transactions_mempool = [],
          t_history = [(example_address, ''t0'', 0, 10, Some 0)],
          t_history_mempool = []\<rparr>,
       clock = 3\<rparr>,
      [TipQuery, BlockFetch 1, Import 1 example_import None, TipQuery,
       Rollback 1 [(DeleteBlocks, [SqlNum 1]), (DeleteTransactions, [SqlNum 1]),
                   (DeleteHistory, [SqlNum 1])] None]) \<and>
   truncations
     [TipQuery, BlockFetch 1, Import 1 example_import None, TipQuery,
      Rollback 1 [(DeleteBlocks, [SqlNum 1]), (DeleteTransactions, [SqlNum 1]),
                  (DeleteHistory, [SqlNum 1])] None] = 1"
proof -
  let ?evs = "[TipQuery, BlockFetch 1, Import 1 example_import None, TipQuery,
               Rollback 1 [(DeleteBlocks, [SqlNum 1]), (DeleteTransactions, [SqlNum 1]),
                           (DeleteHistory, [SqlNum 1])] None]"
  let ?w1 = "\<lparr>self = \<lparr>bestBlock = \<lparr>height = 1, blockid = ''b1''\<rparr>,
               bitcoindBestBlock = \<lparr>height = 1, blockid = ''b1''\<rparr>\<rparr>,
       store =
         \<lparr>t_blocks = [(0, bytea ''a0'', bytea ''h0'', bytea ''t0''),
                      (1, bytea ''b1'', bytea ''h1'', bytea ''aa'')],
          t_transactions = [(bytea ''t0'', bytea ''00'', Some 0),
                            (bytea ''aa'', bytea ''0100'', Some 1)],
          t_transactions_mempool = [],
          t_history = [(example_address, ''t0'', 0, 10, Some 0),
                       (example_address, ''aa'', 0, 5000, Some 1)],
          t_history_mempool = []\<rparr>,
       clock = 2\<rparr>"
  let ?w2 = "\<lparr>self = \<lparr>bestBlock = \<lparr>height = 0, blockid = ''a0''\<rparr>,
               bitcoindBestBlock = \<lparr>height = 1, blockid = ''c1''\<rparr>\<rparr>,
       store =
         \<lparr>t_blocks = [(0, bytea ''a0'', bytea ''h0'', bytea ''t0'')],
          t_transactions = [(bytea ''t0'', bytea ''00'', Some 0)],
          t_transactions_mempool = [],
          t_history = [(example_address, ''t0'', 0, 10, Some 0)],
          t_history_mempool = []\<rparr>,
       clock = 3\<rparr>"
  have m0: "t_transactions_mempool (store example_world) = [(bytea ''m1'', bytea ''01'')] \<and>
      t_history_mempool (store example_world) = [(example_address, ''m1'', 0, 20)]"
    by (simp add: example_world_def example_db_def)
  have o: "once example_env example_world False =
      (Again, ?w1, True, [TipQuery, BlockFetch 1, Import 1 example_import None])"
    by (simp add: cycle_defs store_defs example_defs)
  have c: "catchUp 2 example_env example_world = (None, ?w2, ?evs)"
    by (simp add: catchUp_def numeral_2_eq_2 cycle_defs store_defs example_defs below_height_def
          bytea_def)
  have i: "Import 1 example_import None \<in> set ?evs"
    by simp
  from C6_truncate_once_in_first_import [OF c i] have t: "truncations ?evs = 1"
    by (rule conjunct1)
  show ?thesis
    by (rule conjI [OF m0 conjI [OF o conjI [OF c t]]])
qed

text \<open>
  C1, as stated, fails: in the example run the block of height 1 is imported, with the
  truncation of the mempool tables in its transaction, and then rolled back; the
  transaction of the rollback commits and holds the three deletes and no \<^verbatim>\<open>TRUNCATE\<close>.
\<close>

theorem C1_rollback_without_truncate:
  "snd (snd (catchUp 2 example_env example_world)) =
     [TipQuery, BlockFetch 1,
      Import 1
        [(TruncateMempool, []),
         (InsertBlocks, [SqlNum 1, SqlText (bytea ''b1''), SqlText (bytea ''h1''),
                         SqlText (bytea ''aa'')]),
         (InsertTransactions, [SqlText (bytea ''aa''), SqlText (bytea ''0100''), SqlNum 1]),
         (InsertHistoryHeight,
          [SqlAddr example_address, SqlText ''aa'', SqlNum 0, SqlNum 5000, SqlNum 1])]
        None,
      TipQuery,
      Rollback 1 [(DeleteBlocks, [SqlNum 1]), (DeleteTransactions, [SqlNum 1]),
                  (DeleteHistory, [SqlNum 1])] None]"
  using example_run by (simp add: example_import_def)

text \<open>
  C1 (amended). A rollback of the reorg branch clears the mempool tables only through
  \<open>tryTruncateMempool\<close>, which acts once in a call of \<open>catchUp\<close>. Once it has run, a
  rollback commits with the three deletes alone, without a \<^verbatim>\<open>TRUNCATE\<close>, and leaves
  both mempool tables as they are. So in a call that imports a block, an import
  truncates in its transaction, every rollback after it is such a rollback, and the
  mempool tables are empty at the end of the call.
\<close>

theorem C1_rollback_after_truncation:
  "(\<exists>w'. rollbackTo E w True =
       (ReorgFound, w', True,
        [Rollback (height (bitcoindBestBlock (self w)))
           [(DeleteBlocks, [SqlNum (height (bitcoindBestBlock (self w)))]),
            (DeleteTransactions, [SqlNum (height (bitcoindBestBlock (self w)))]),
            (DeleteHistory, [SqlNum (height (bitcoindBestBlock (self w)))])] None]) \<and>
       t_transactions_mempool (store w') = t_transactions_mempool (store w) \<and>
       t_history_mempool (store w') = t_history_mempool (store w)) \<and>
   (catchUp n E w0 = (r, w0', evs) \<and> Import h0 sts0 None \<in> set evs \<longrightarrow>
      (\<exists>pre h sts post.
         evs = pre @ Import h ((TruncateMempool, []) # sts) None # post \<and>
         (\<forall>h' sts' x. Rollback h' sts' x \<in> set post \<longrightarrow>
            x = None \<and>
            sts' = [(DeleteBlocks, [SqlNum h']), (DeleteTransactions, [SqlNum h']),
                    (DeleteHistory, [SqlNum h'])])) \<and>
      t_transactions_mempool (store w0') = [] \<and> t_history_mempool (store w0') = [])"
proof (intro conjI impI)
  show "\<exists>w'. rollbackTo E w True =
       (ReorgFound, w', True,
        [Rollback (height (bitcoindBestBlock (self w)))
           [(DeleteBlocks, [SqlNum (height (bitcoindBestBlock (self w)))]),
            (DeleteTransactions, [SqlNum (height (bitcoindBestBlock (self w)))]),
            (DeleteHistory, [SqlNum (height (bitcoindBestBlock (self w)))])] None]) \<and>
       t_transactions_mempool (store w') = t_transactions_mempool (store w) \<and>
       t_history_mempool (store w') = t_history_mempool (store w)"
    unfolding rollbackTo_truncated by (simp add: below_height_mempool)
next
  assume "catchUp n E w0 = (r, w0', evs) \<and> Import h0 sts0 None \<in> set evs"
  then have c: "catchUp n E w0 = (r, w0', evs)" and i: "Import h0 sts0 None \<in> set evs"
    by simp_all
  from catchUp_after_first_import [OF c i]
  show "\<exists>pre h sts post.
         evs = pre @ Import h ((TruncateMempool, []) # sts) None # post \<and>
         (\<forall>h' sts' x. Rollback h' sts' x \<in> set post \<longrightarrow>
            x = None \<and>
            sts' = [(DeleteBlocks, [SqlNum h']), (DeleteTransactions, [SqlNum h']),
                    (DeleteHistory, [SqlNum h'])])"
    by blast
  from catchUp_mempool_after_import [OF c i]
  show "t_transactions_mempool (store w0') = []" and "t_history_mempool (store w0') = []"
    by simp_all
qed

theorem C1_rollback_after_truncation_witness:
  "(\<exists>w'. rollbackTo example_env world_fork True =
       (ReorgFound, w', True,
        [Rollback 1 [(DeleteBlocks, [SqlNum 1]), (DeleteTransactions, [SqlNum 1]),
                     (DeleteHistory, [SqlNum 1])] None]) \<and>
       t_transactions_mempool (store w') = [] \<and> t_history_mempool (store w') = []) \<and>
   (\<exists>r w' evs.
       catchUp 2 example_env example_world = (r, w', evs) \<and>
       Import 1 example_import None \<in> set evs \<and>
       Rollback 1 [(DeleteBlocks, [SqlNum 1]), (DeleteTransactions, [SqlNum 1]),
                   (DeleteHistory, [SqlNum 1])] None \<in> set evs \<and>
       (\<exists>pre h sts post.
          evs = pre @ Import h ((TruncateMempool, []) # sts) None # post \<and>
          (\<forall>h' sts' x. Rollback h' sts' x \<in> set post \<longrightarrow>
             x = None \<and>
             sts' = [(DeleteBlocks, [SqlNum h']), (DeleteTransactions, [SqlNum h']),
                     (DeleteHistory, [SqlNum h'])])) \<and>
       t_transactions_mempool (store w') = [] \<and> t_history_mempool (store w') = [])"
proof -
  let ?evs = "[TipQuery, BlockFetch 1, Import 1 example_import None, TipQuery,
               Rollback 1 [(DeleteBlocks, [SqlNum 1]), (DeleteTransactions, [SqlNum 1]),
                           (DeleteHistory, [SqlNum 1])] None]"
  obtain r w' where c: "catchUp 2 example_env example_world = (r, w', ?evs)"
    using example_run by (metis prod.collapse)
  have i: "Import 1 example_import None \<in> set ?evs" by simp
  have k: "Rollback 1 [(DeleteBlocks, [SqlNum 1]), (DeleteTransactions, [SqlNum 1]),
                   (DeleteHistory, [SqlNum 1])] None \<in> set ?evs" by simp
  note use = C1_rollback_after_truncation
    [of example_env world_fork 2 example_world r w' ?evs 1 example_import]
  from use have "\<exists>w'. rollbackTo example_env world_fork True =
       (ReorgFound, w', True,
        [Rollback 1 [(DeleteBlocks, [SqlNum 1]), (DeleteTransactions, [SqlNum 1]),
                     (DeleteHistory, [SqlNum 1])] None]) \<and>
       t_transactions_mempool (store w') = [] \<and> t_history_mempool (store w') = []"
    by (simp add: world_fork_def example_db_1_def)
  moreover
  note after = use [THEN conjunct2, THEN mp, OF conjI [OF c i]]
  have "catchUp 2 example_env example_world = (r, w', ?evs) \<and>
       Import 1 example_import None \<in> set ?evs \<and>
       Rollback 1 [(DeleteBlocks, [SqlNum 1]), (DeleteTransactions, [SqlNum 1]),
                   (DeleteHistory, [SqlNum 1])] None \<in> set ?evs \<and>
       (\<exists>pre h sts post.
          ?evs = pre @ Import h ((TruncateMempool, []) # sts) None # post \<and>
          (\<forall>h' sts' x. Rollback h' sts' x \<in> set post \<longrightarrow>
             x = None \<and>
             sts' = [(DeleteBlocks, [SqlNum h']), (DeleteTransactions, [SqlNum h']),
                     (DeleteHistory, [SqlNum h'])])) \<and>
       t_transactions_mempool (store w') = [] \<and> t_history_mempool (store w') = []"
    by (rule conjI [OF c conjI [OF i conjI [OF k after]]])
  then have "\<exists>r w' evs.
       catchUp 2 example_env example_world = (r, w', evs) \<and>
       Import 1 example_import None \<in> set evs \<and>
       Rollback 1 [(DeleteBlocks, [SqlNum 1]), (DeleteTransactions, [SqlNum 1]),
                   (DeleteHistory, [SqlNum 1])] None \<in> set evs \<and>
       (\<exists>pre h sts post.
          evs = pre @ Import h ((TruncateMempool, []) # sts) None # post \<and>
          (\<forall>h' sts' x. Rollback h' sts' x \<in> set post \<longrightarrow>
             x = None \<and>
             sts' = [(DeleteBlocks, [SqlNum h']), (DeleteTransactions, [SqlNum h']),
                     (DeleteHistory, [SqlNum h'])])) \<and>
       t_transactions_mempool (store w') = [] \<and> t_history_mempool (store w') = []"
    by (intro exI)
  ultimately show ?thesis by (rule conjI)
qed

subsection \<open>Errors and the main loop\<close>

lemma example_tick:
  "mainLoopOnce 3 example_env example_world =
     (Some (Inl (SourceError Unavailable)),
      example_world
        \<lparr>self := (self example_world)\<lparr>bitcoindBestBlock := \<lparr>height = 1, blockid = ''b1''\<rparr>\<rparr>,
         clock := 2\<rparr>,
      [TipQuery, TipQuery])"
  by (simp add: mainLoopOnce_def catchUp_def numeral_3_eq_3 once_def checkSync_def
        example_env_def example_world_def)

text \<open>
  C2, as stated, fails: in the example bitcoind stops answering inside the first cycle
  of \<open>catchUp\<close>; the promise of the first tick of \<open>mainLoop\<close> is rejected with that
  error, and the second tick is armed, 980 ms later, and runs.
\<close>

theorem C2_main_loop_goes_on:
  "mainLoop 2 3 example_env example_world =
     [\<lparr>settled = Inl (SourceError Unavailable), events = [TipQuery, TipQuery], delay = 980\<rparr>,
      \<lparr>settled = Inl (SourceError Unavailable), events = [TipQuery, TipQuery], delay = 980\<rparr>]"
  by (simp add: numeral_2_eq_2 numeral_3_eq_3 mainLoopOnce_def catchUp_def once_def
        checkSync_def example_env_def example_world_def)

text \<open>
  C2 (amended). An error of a cycle that is neither \<open>SyncComplete\<close> nor \<open>ReorgFound\<close>
  ends the call of \<open>catchUp\<close> at that cycle: no further cycle of the call runs and its
  promise is rejected with the error. The main loop does not halt on it: the tick whose
  promise is rejected with an error is followed by the next tick, armed by the
  \<open>finally\<close> handler with the delay \<open>max(0, loopInterval - elapsed)\<close>.
\<close>

theorem C2_error_ends_run_not_loop:
  "(e \<noteq> SyncComplete \<and> e \<noteq> ReorgFound \<longrightarrow> settle (Inl e) = Rejected e) \<and>
   (once E w flag = (Rejected e, w', flag', evs) \<longrightarrow>
      catchUpFrom (Suc n) E w flag = (Some (Inl e), w', evs)) \<and>
   (mainLoopOnce m E w0 = (Some (Inl e), w0', evs0) \<longrightarrow>
      mainLoop (Suc k) m E w0 =
        \<lparr>settled = Inl e, events = evs0,
         delay = max 0 (loopInterval E - (now E (clock w0') - now E (clock w0)))\<rparr>
        # mainLoop k m E w0')"
proof (intro conjI impI)
  assume "e \<noteq> SyncComplete \<and> e \<noteq> ReorgFound"
  then show "settle (Inl e) = Rejected e" by (cases e) simp_all
next
  assume "once E w flag = (Rejected e, w', flag', evs)"
  then show "catchUpFrom (Suc n) E w flag = (Some (Inl e), w', evs)" by simp
next
  assume "mainLoopOnce m E w0 = (Some (Inl e), w0', evs0)"
  then show "mainLoop (Suc k) m E w0 =
        \<lparr>settled = Inl e, events = evs0,
         delay = max 0 (loopInterval E - (now E (clock w0') - now E (clock w0)))\<rparr>
        # mainLoop k m E w0'"
    by (simp add: Let_def)
qed

theorem C2_error_ends_run_not_loop_witness:
  "(\<exists>w'. once example_env (example_world\<lparr>clock := 1\<rparr>) False =
            (Rejected (SourceError Unavailable), w', False, [TipQuery]) \<and>
          catchUpFrom 3 example_env (example_world\<lparr>clock := 1\<rparr>) False =
            (Some (Inl (SourceError Unavailable)), w', [TipQuery])) \<and>
   (\<exists>w'. mainLoopOnce 3 example_env example_world =
            (Some (Inl (SourceError Unavailable)), w', [TipQuery, TipQuery]) \<and>
          mainLoop 2 3 example_env example_world =
            \<lparr>settled = Inl (SourceError Unavailable), events = [TipQuery, TipQuery], delay = 980\<rparr>
            # mainLoop 1 3 example_env w')"
proof -
  obtain w1 where
    o: "once example_env (example_world\<lparr>clock := 1\<rparr>) False =
          (Rejected (SourceError Unavailable), w1, False, [TipQuery])"
    by (simp add: once_def checkSync_def example_env_def example_world_def)
  obtain w2 where
    t: "mainLoopOnce 3 example_env example_world =
          (Some (Inl (SourceError Unavailable)), w2, [TipQuery, TipQuery])"
    and c: "clock w2 = 2"
    using example_tick by simp
  note use = C2_error_ends_run_not_loop
    [of "SourceError Unavailable" example_env "example_world\<lparr>clock := 1\<rparr>" False w1 False
        "[TipQuery]" 2 3 example_world w2 "[TipQuery, TipQuery]" 1]
  from use o have "catchUpFrom 3 example_env (example_world\<lparr>clock := 1\<rparr>) False =
            (Some (Inl (SourceError Unavailable)), w1, [TipQuery])"
    by (simp add: numeral_3_eq_3)
  moreover from use t c have "mainLoop 2 3 example_env example_world =
            \<lparr>settled = Inl (SourceError Unavailable), events = [TipQuery, TipQuery], delay = 980\<rparr>
            # mainLoop 1 3 example_env w2"
    by (simp add: numeral_2_eq_2 example_env_def example_world_def)
  ultimately show ?thesis using o t by blast
qed

end
